theory Spec2Isabelle
  imports Main "HOL-Library.AList" "HOL-Library.Monad_Syntax" "HOL-Library.Word"
begin

chapter \<open>Embedding of the terminal-sharing relay and its producer\<close>

section \<open>Producer: pane capture (packages/cli/src/tmux/capture.ts)\<close>

text \<open>
  An \<open>OutputEvent\<close> is what the capture hands to its callback. The constant field
  \<open>type: 'output'\<close> carries no information and is left out. JavaScript numbers that
  count or hold milliseconds are integers here.
\<close>

record OutputEvent =
  seq :: int
  content :: string
  timestamp :: int

text \<open>
  The mutable fields of class \<open>TmuxCapture\<close>. \<open>callback\<close> and \<open>intervalHandle\<close> only
  record whether the field is non-null; the callback's effect is the list of events the
  operation returns.
\<close>

record TmuxCapture =
  running :: bool
  cap_seq :: int
  lastContent :: string
  intervalHandle :: bool
  callback :: bool

definition new_TmuxCapture :: TmuxCapture where
  "new_TmuxCapture =
     \<lparr>running = False, cap_seq = 0, lastContent = [], intervalHandle = False, callback = False\<rparr>"

text \<open>
  \<open>start(callback)\<close>. The argument \<open>captured\<close> is what \<open>capturePane()\<close> returns at this
  call (the empty string when tmux fails), \<open>now\<close> is \<open>Date.now()\<close>.
\<close>

definition start :: "string \<Rightarrow> int \<Rightarrow> TmuxCapture \<Rightarrow> TmuxCapture \<times> OutputEvent list" where
  "start captured now c =
     (if running c then (c, [])
      else
        let c1 = c\<lparr>callback := True, running := True, lastContent := captured\<rparr> in
        if lastContent c1 \<noteq> [] then
          let c2 = c1\<lparr>cap_seq := cap_seq c1 + 1\<rparr> in
          (c2\<lparr>intervalHandle := True\<rparr>,
           [\<lparr>seq = cap_seq c2, content = lastContent c2, timestamp = now\<rparr>])
        else (c1\<lparr>intervalHandle := True\<rparr>, []))"

text \<open>\<open>poll()\<close>, run by the interval timer; \<open>currentContent\<close> is the pane as captured now.\<close>

definition poll :: "string \<Rightarrow> int \<Rightarrow> TmuxCapture \<Rightarrow> TmuxCapture \<times> OutputEvent list" where
  "poll currentContent now c =
     (if \<not> running c \<or> \<not> callback c then (c, [])
      else if currentContent \<noteq> lastContent c then
        let c1 = c\<lparr>cap_seq := cap_seq c + 1\<rparr> in
        (c1\<lparr>lastContent := currentContent\<rparr>,
         [\<lparr>seq = cap_seq c1, content = currentContent, timestamp = now\<rparr>])
      else (c, []))"

definition stop :: "TmuxCapture \<Rightarrow> TmuxCapture" where
  "stop c = c\<lparr>intervalHandle := False, running := False, callback := False\<rparr>"

text \<open>
  What can happen to one capture object: a call of \<open>start\<close>, a tick of the interval
  timer, a call of \<open>stop\<close>. A tick only exists while the timer is armed.
\<close>

datatype capture_op = Start string int | Poll string int | Stop

fun capture_step :: "capture_op \<Rightarrow> TmuxCapture \<Rightarrow> TmuxCapture \<times> OutputEvent list" where
  "capture_step (Start captured now) c = start captured now c"
| "capture_step (Poll captured now) c = (if intervalHandle c then poll captured now c else (c, []))"
| "capture_step Stop c = (stop c, [])"

text \<open>Whether the operation really reads the pane, and what it reads.\<close>

fun captured_by :: "capture_op \<Rightarrow> TmuxCapture \<Rightarrow> string option" where
  "captured_by (Start captured now) c = (if running c then None else Some captured)"
| "captured_by (Poll captured now) c =
     (if intervalHandle c \<and> running c \<and> callback c then Some captured else None)"
| "captured_by Stop c = None"

text \<open>
  Running a sequence of operations: the final object, the events handed to the callback in
  order, and the most recent snapshot read from the pane (if any).
\<close>

fun capture_run ::
  "capture_op list \<Rightarrow> TmuxCapture \<times> OutputEvent list \<times> string option \<Rightarrow>
   TmuxCapture \<times> OutputEvent list \<times> string option" where
  "capture_run [] st = st"
| "capture_run (op # ops) (c, evs, prev) =
     (let (c', new) = capture_step op c in
      capture_run ops
        (c', evs @ new, (case captured_by op c of None \<Rightarrow> prev | Some x \<Rightarrow> Some x)))"

definition capture_trace :: "capture_op list \<Rightarrow> TmuxCapture \<times> OutputEvent list \<times> string option" where
  "capture_trace ops = capture_run ops (new_TmuxCapture, [], None)"

text \<open>
  What holds of a capture object and its history after any sequence of operations: the
  events carry the sequence numbers 1, 2, ... up to the object's counter, the timer is
  armed and the callback set exactly while the capture runs, and while it runs
  \<open>lastContent\<close> is the snapshot read last.
\<close>

definition cap_inv :: "TmuxCapture \<times> OutputEvent list \<times> string option \<Rightarrow> bool" where
  "cap_inv st =
     (case st of (c, evs, prev) \<Rightarrow>
        map seq evs = [1 .. cap_seq c] \<and> cap_seq c = int (length evs) \<and>
        (intervalHandle c = running c) \<and> (callback c = running c) \<and>
        (running c \<longrightarrow> prev = Some (lastContent c)))"

section \<open>Crypto envelope (packages/crypto, packages/web-client/src/crypto.ts)\<close>

text \<open>
  A \<open>Uint8Array\<close> is a list of bytes. A message handed to \<open>encrypt\<close> is a string or a byte
  array.
\<close>

type_synonym bytes = "8 word list"

datatype message = Str string | Bytes bytes

record EncryptedMessage =
  nonce :: string
  ciphertext :: string

text \<open>
  The functions of tweetnacl and tweetnacl-util that the envelope code calls. They are not
  part of the repository, so they are parameters of the embedding. A result \<open>None\<close> stands
  for a raised exception (bad key or nonce width, malformed base64, malformed text);
  \<open>secretbox_open\<close> inside that returns \<open>None\<close> for JavaScript's \<open>null\<close> (authentication
  failure).
\<close>

record nacl =
  secretbox :: "bytes \<Rightarrow> bytes \<Rightarrow> bytes \<Rightarrow> bytes option"
  secretbox_open :: "bytes \<Rightarrow> bytes \<Rightarrow> bytes \<Rightarrow> bytes option option"
  encodeBase64 :: "bytes \<Rightarrow> string"
  decodeBase64 :: "string \<Rightarrow> bytes option"
  encodeUTF8 :: "bytes \<Rightarrow> string option"
  decodeUTF8 :: "string \<Rightarrow> bytes option"

definition secretbox_nonceLength :: nat where
  "secretbox_nonceLength = 24"

definition secretbox_keyLength :: nat where
  "secretbox_keyLength = 32"

text \<open>
  \<open>encrypt(message, sharedSecret)\<close>; the argument \<open>rnd\<close> is what
  \<open>nacl.randomBytes(nacl.secretbox.nonceLength)\<close> returns at this call.
\<close>

definition messageBytes :: "nacl \<Rightarrow> message \<Rightarrow> bytes option" where
  "messageBytes L msg = (case msg of Str s \<Rightarrow> decodeUTF8 L s | Bytes b \<Rightarrow> Some b)"

definition encrypt :: "nacl \<Rightarrow> bytes \<Rightarrow> message \<Rightarrow> bytes \<Rightarrow> EncryptedMessage option" where
  "encrypt L rnd msg sharedSecret =
     do {
       mb \<leftarrow> messageBytes L msg;
       c \<leftarrow> secretbox L mb rnd sharedSecret;
       Some \<lparr>nonce = encodeBase64 L rnd, ciphertext = encodeBase64 L c\<rparr>
     }"

definition decrypt :: "nacl \<Rightarrow> EncryptedMessage \<Rightarrow> bytes \<Rightarrow> bytes option option" where
  "decrypt L enc sharedSecret =
     do {
       n \<leftarrow> decodeBase64 L (nonce enc);
       c \<leftarrow> decodeBase64 L (ciphertext enc);
       secretbox_open L c n sharedSecret
     }"

definition decryptToString :: "nacl \<Rightarrow> EncryptedMessage \<Rightarrow> bytes \<Rightarrow> string option option" where
  "decryptToString L enc sharedSecret =
     do {
       decrypted \<leftarrow> decrypt L enc sharedSecret;
       (case decrypted of
          None \<Rightarrow> Some None
        | Some d \<Rightarrow> do { s \<leftarrow> encodeUTF8 L d; Some (Some s) })
     }"

text \<open>
  What the envelope code relies on from the library: base64 decoding undoes encoding,
  opening a box made with a 24-byte nonce and a 32-byte key under the same nonce and key
  gives the message back, and UTF-8 encoding undoes decoding.
\<close>

definition nacl_contract :: "nacl \<Rightarrow> bool" where
  "nacl_contract L =
     ((\<forall>b. decodeBase64 L (encodeBase64 L b) = Some b) \<and>
      (\<forall>m n k. length n = secretbox_nonceLength \<and> length k = secretbox_keyLength \<longrightarrow>
         (\<exists>c. secretbox L m n k = Some c \<and> secretbox_open L c n k = Some (Some m))) \<and>
      (\<forall>s b. decodeUTF8 L s = Some b \<longrightarrow> encodeUTF8 L b = Some s))"

text \<open>
  A small instance of the library interface, used to evaluate the envelope code on
  concrete inputs: base64 text is one character per byte, the box is the message itself,
  and it opens only under the right widths.
\<close>

definition plain_nacl :: nacl where
  "plain_nacl =
     \<lparr>secretbox = (\<lambda>m n k.
        if length n = secretbox_nonceLength \<and> length k = secretbox_keyLength then Some m else None),
      secretbox_open = (\<lambda>c n k.
        if length n = secretbox_nonceLength \<and> length k = secretbox_keyLength then Some (Some c) else None),
      encodeBase64 = map (\<lambda>w. char_of (unat w)),
      decodeBase64 = (\<lambda>s. Some (map (\<lambda>c. of_nat (of_char c)) s)),
      encodeUTF8 = (\<lambda>b. Some (map (\<lambda>w. char_of (unat w)) b)),
      decodeUTF8 = (\<lambda>s. Some (map (\<lambda>c. of_nat (of_char c)) s))\<rparr>"

section \<open>JSON values and the pairing code\<close>

text \<open>
  The values \<open>JSON.parse\<close> can return. An object keeps its members as an association list.
  Numbers are integers: the only numbers this code puts into JSON are sequence numbers
  and millisecond timestamps.
\<close>

datatype json =
    JNull
  | JBool bool
  | JNum int
  | JStr string
  | JArr "json list"
  | JObj "(string \<times> json) list"

text \<open>
  \<open>JSON.parse\<close> and \<open>JSON.stringify\<close> are built into the runtime and are parameters here;
  \<open>JSON_parse\<close> returns \<open>None\<close> where \<open>JSON.parse\<close> raises a SyntaxError.
\<close>

record json_lib =
  JSON_parse :: "string \<Rightarrow> json option"
  JSON_stringify :: "json \<Rightarrow> string"

text \<open>Reading a property: \<open>None\<close> is \<open>undefined\<close>. Reading a property of \<open>null\<close> raises.\<close>

fun js_get :: "json \<Rightarrow> string \<Rightarrow> json option" where
  "js_get (JObj kvs) k = map_of kvs k"
| "js_get j k = None"

fun js_truthy :: "json option \<Rightarrow> bool" where
  "js_truthy None = False"
| "js_truthy (Some JNull) = False"
| "js_truthy (Some (JBool b)) = b"
| "js_truthy (Some (JNum n)) = (n \<noteq> 0)"
| "js_truthy (Some (JStr s)) = (s \<noteq> [])"
| "js_truthy (Some (JArr xs)) = True"
| "js_truthy (Some (JObj kvs)) = True"

record PairingCode =
  pc_sessionId :: string
  pc_publicKey :: string
  pc_timestamp :: int

definition pairing_json :: "PairingCode \<Rightarrow> json" where
  "pairing_json c =
     JObj [(''sessionId'', JStr (pc_sessionId c)), (''publicKey'', JStr (pc_publicKey c)),
           (''timestamp'', JNum (pc_timestamp c))]"

text \<open>
  \<open>parsePairingCode(code)\<close>: the result \<open>None\<close> is \<open>null\<close>, returned by the field check and
  by the \<open>catch\<close> (a SyntaxError of \<open>JSON.parse\<close>, or the TypeError of reading a field of
  \<open>null\<close>).
\<close>

definition parsePairingCode :: "json_lib \<Rightarrow> string \<Rightarrow> json option" where
  "parsePairingCode J code =
     (case JSON_parse J code of
        None \<Rightarrow> None
      | Some parsed \<Rightarrow>
          if parsed = JNull then None
          else if \<not> js_truthy (js_get parsed ''sessionId'') \<or>
                  \<not> js_truthy (js_get parsed ''publicKey'') \<or>
                  \<not> js_truthy (js_get parsed ''timestamp'')
          then None
          else Some parsed)"

definition encodePairingCode :: "json_lib \<Rightarrow> PairingCode \<Rightarrow> string" where
  "encodePairingCode J c = JSON_stringify J (pairing_json c)"

text \<open>
  The validity rule in the words of the specification: the parsed value is an object that
  carries all three fields.
\<close>

definition carries_all_fields :: "json \<Rightarrow> bool" where
  "carries_all_fields j =
     (case j of
        JObj kvs \<Rightarrow> map_of kvs ''sessionId'' \<noteq> None \<and> map_of kvs ''publicKey'' \<noteq> None \<and>
                    map_of kvs ''timestamp'' \<noteq> None
      | _ \<Rightarrow> False)"

text \<open>The rule the code applies: each of the three fields is present and truthy.\<close>

definition all_fields_truthy :: "json \<Rightarrow> bool" where
  "all_fields_truthy j =
     (case j of
        JObj kvs \<Rightarrow> js_truthy (map_of kvs ''sessionId'') \<and> js_truthy (map_of kvs ''publicKey'') \<and>
                    js_truthy (map_of kvs ''timestamp'')
      | _ \<Rightarrow> False)"

text \<open>
  Two pairing codes and a table of what \<open>JSON.stringify\<close> and \<open>JSON.parse\<close> do on them, for
  evaluating the pairing functions on concrete inputs.
\<close>

definition demo_pairing :: PairingCode where
  "demo_pairing = \<lparr>pc_sessionId = ''demo'', pc_publicKey = ''cHVibGlj'', pc_timestamp = 1700000000000\<rparr>"

definition unnamed_pairing :: PairingCode where
  "unnamed_pairing = \<lparr>pc_sessionId = [], pc_publicKey = ''cHVibGlj'', pc_timestamp = 1700000000000\<rparr>"

definition demo_pairing_text :: string where
  \<open>demo_pairing_text = ''{"sessionId":"demo","publicKey":"cHVibGlj","timestamp":1700000000000}''\<close>

definition unnamed_pairing_text :: string where
  \<open>unnamed_pairing_text = ''{"sessionId":"","publicKey":"cHVibGlj","timestamp":1700000000000}''\<close>

definition table_json :: json_lib where
  "table_json =
     \<lparr>JSON_parse = map_of
        [(demo_pairing_text, pairing_json demo_pairing),
         (unnamed_pairing_text, pairing_json unnamed_pairing)],
      JSON_stringify = (\<lambda>j.
        if j = pairing_json demo_pairing then demo_pairing_text
        else if j = pairing_json unnamed_pairing then unnamed_pairing_text
        else [])\<rparr>"

section \<open>Producer: encrypted client (class EncryptedWSClient)\<close>

text \<open>
  An \<open>encrypted-output\<close> message as the producer sends it and the relay stores it. The
  field \<open>encrypted\<close> is called \<open>envelope\<close> here, \<open>seq\<close> and \<open>timestamp\<close> carry a prefix.
\<close>

record EncryptedOutputEvent =
  viewerId :: string
  envelope :: EncryptedMessage
  eo_seq :: int
  eo_timestamp :: int

text \<open>
  The fields of the client that \<open>sendEncryptedOutput\<close> touches; \<open>connected\<close> is
  \<open>this.socket?.connected\<close>. The shared secrets are a \<open>Map\<close>, which iterates in insertion
  order: an association list.
\<close>

record EncryptedWSClient =
  connected :: bool
  sharedSecrets :: "(string \<times> bytes) list"
  lastOutputEvent :: "OutputEvent option"

datatype client_emit =
    EmitEncryptedOutput EncryptedOutputEvent
  | EmitOutputHistory EncryptedMessage int int

text \<open>The object that \<open>JSON.stringify(event)\<close> serialises, fields in creation order.\<close>

definition event_json :: "OutputEvent \<Rightarrow> json" where
  "event_json ev =
     JObj [(''type'', JStr ''output''), (''seq'', JNum (seq ev)), (''content'', JStr (content ev)),
           (''timestamp'', JNum (timestamp ev))]"

text \<open>
  The \<open>for\<close> loop of \<open>sendEncryptedOutput\<close> over the shared secrets. \<open>rand k\<close> is the nonce
  that the \<open>k\<close>-th call of \<open>nacl.randomBytes\<close> within this send returns. The result lists the
  messages emitted and says whether the loop ran to its end (\<open>False\<close>: the library raised,
  and the exception leaves the method).
\<close>

fun encrypt_each ::
  "nacl \<Rightarrow> json_lib \<Rightarrow> (nat \<Rightarrow> bytes) \<Rightarrow> nat \<Rightarrow> OutputEvent \<Rightarrow> (string \<times> bytes) list \<Rightarrow>
   client_emit list \<times> bool" where
  "encrypt_each L J rand k event [] = ([], True)"
| "encrypt_each L J rand k event ((vid, sharedSecret) # rest) =
     (case encrypt L (rand k) (Str (JSON_stringify J (event_json event))) sharedSecret of
        None \<Rightarrow> ([], False)
      | Some encrypted \<Rightarrow>
          (let (out, ok) = encrypt_each L J rand (Suc k) event rest in
           (EmitEncryptedOutput
              \<lparr>viewerId = vid, envelope = encrypted, eo_seq = seq event,
               eo_timestamp = timestamp event\<rparr> # out, ok)))"

definition sendEncryptedOutput ::
  "nacl \<Rightarrow> json_lib \<Rightarrow> (nat \<Rightarrow> bytes) \<Rightarrow> OutputEvent \<Rightarrow> EncryptedWSClient \<Rightarrow>
   EncryptedWSClient \<times> client_emit list \<times> bool" where
  "sendEncryptedOutput L J rand event c =
     (let c1 = c\<lparr>lastOutputEvent := Some event\<rparr> in
      if \<not> connected c1 then (c1, [], True)
      else
        let (out, ok) = encrypt_each L J rand 0 event (sharedSecrets c1) in
        if \<not> ok then (c1, out, False)
        else if length (sharedSecrets c1) > 0 then
          (case sharedSecrets c1 of
             [] \<Rightarrow> (c1, out, True)
           | (firstViewerId, firstSecret) # _ \<Rightarrow>
               (case encrypt L (rand (length (sharedSecrets c1)))
                       (Str (JSON_stringify J (event_json event))) firstSecret of
                  None \<Rightarrow> (c1, out, False)
                | Some encrypted \<Rightarrow>
                    (c1, out @ [EmitOutputHistory encrypted (seq event) (timestamp event)], True)))
        else (c1, out, True))"

text \<open>The \<open>encrypted-output\<close> messages among what a send emits.\<close>

fun encrypted_outputs :: "client_emit list \<Rightarrow> EncryptedOutputEvent list" where
  "encrypted_outputs [] = []"
| "encrypted_outputs (EmitEncryptedOutput e # rest) = e # encrypted_outputs rest"
| "encrypted_outputs (EmitOutputHistory enc s t # rest) = encrypted_outputs rest"

text \<open>
  What it means for message \<open>m\<close> to be the one \<open>encrypted-output\<close> owed to the entry
  \<open>(vid, secret)\<close> of the shared-secret map for the event \<open>event\<close>: it names that viewer,
  repeats the event's \<open>seq\<close> and \<open>timestamp\<close>, and its envelope decrypts under that viewer's
  secret to the JSON text of the event.
\<close>

definition output_for ::
  "nacl \<Rightarrow> json_lib \<Rightarrow> OutputEvent \<Rightarrow> string \<times> bytes \<Rightarrow> EncryptedOutputEvent \<Rightarrow> bool" where
  "output_for L J event entry m =
     (viewerId m = fst entry \<and> eo_seq m = seq event \<and> eo_timestamp m = timestamp event \<and>
      decryptToString L (envelope m) (snd entry) = Some (Some (JSON_stringify J (event_json event))))"

text \<open>
  A table of \<open>JSON.stringify\<close> and \<open>JSON.parse\<close> on one output event, for evaluating a send on
  concrete inputs.
\<close>

definition hello_event :: OutputEvent where
  "hello_event = \<lparr>seq = 1, content = ''hello'', timestamp = 1700000000000\<rparr>"

definition hello_event_text :: string where
  \<open>hello_event_text = ''{"type":"output","seq":1,"content":"hello","timestamp":1700000000000}''\<close>

definition hello_json :: json_lib where
  "hello_json =
     \<lparr>JSON_parse = map_of [(hello_event_text, event_json hello_event)],
      JSON_stringify = (\<lambda>j. if j = event_json hello_event then hello_event_text else [])\<rparr>"

section \<open>Relay: data model (the Fastify and Socket.IO server)\<close>

definition CONTROL_LOCK_TIMEOUT :: int where
  "CONTROL_LOCK_TIMEOUT = 30000"

record Viewer =
  socketId :: string
  publicKey :: string
  nickname :: "string option"

record ControlLock =
  holderId :: string
  holderNickname :: "string option"
  acquiredAt :: int
  lastInputAt :: int

text \<open>
  A \<open>Session\<close> object. Its \<open>id\<close> field is \<open>sess_id\<close> here. The viewers are a \<open>Map\<close> keyed by
  socket id: an association list in insertion order.
\<close>

record Session =
  sess_id :: string
  userId :: "string option"
  cliSocketId :: "string option"
  cliPublicKey :: "string option"
  daemonSocketId :: "string option"
  viewers :: "(string \<times> Viewer) list"
  lastOutput :: "OutputEvent option"
  outputHistory :: "OutputEvent list"
  encryptedHistory :: "EncryptedOutputEvent list"
  encrypted :: bool
  controlLock :: "ControlLock option"
  createdAt :: int

record CLIDaemon =
  d_socketId :: string
  d_userId :: "string option"
  activeSessions :: "string list"
  connectedAt :: int

record InputData =
  keys :: string
  key_type :: string

record CommandMessage =
  commandId :: string
  command :: string
  params :: "(string \<times> string) list option"

record CommandResponse =
  r_commandId :: string
  success :: bool
  r_data :: "json option"
  r_error :: "string option"

text \<open>
  What the relay sends. A target is the socket a handler answers on (\<open>socket.emit\<close>), a
  room (\<open>io.to(room)\<close>; every socket is alone in the room named by its id), a room without
  the sender (\<open>socket.to(room)\<close>), every socket (\<open>io.emit\<close>), or the caller of an HTTP
  request.
\<close>

datatype target =
    ToSocket string
  | ToRoom string
  | ToRoomExcept string string
  | ToAll
  | ToHttp nat

datatype payload =
    CliStatus bool "string option" bool
  | ControlStatus bool "string option" "string option" "int option"
  | ControlDenied string string "string option"
  | InputRejected string
  | ErrorMessage string
  | OutputP OutputEvent
  | EncryptedOutputP EncryptedMessage int int
  | InputP InputData
  | EncryptedInputP string EncryptedMessage
  | ViewerJoined string string
  | ViewerLeft string
  | HistoryP "OutputEvent list"
  | EncryptedHistoryP "EncryptedOutputEvent list"
  | CliCommandP CommandMessage
  | CliResponseP CommandResponse
  | HttpError string
  | HttpSuccess "json option"

type_synonym emit = "target \<times> payload"

text \<open>The handshake query of a connection; a missing parameter is \<open>None\<close>.\<close>

record Handshake =
  q_sessionId :: "string option"
  q_clientType :: "string option"
  q_publicKey :: "string option"
  q_nickname :: "string option"
  q_userSecret :: "string option"

text \<open>
  What the handlers of one ordinary connection close over: the socket's id, the session
  id and client type of its handshake, and the \<open>Session\<close> object found or created when it
  connected (a reference: an index into the relay's objects).
\<close>

record Closure =
  sock :: string
  sessionId :: string
  clientType :: "string option"
  session :: nat

text \<open>JavaScript truthiness of a value that is a string, \<open>null\<close> or \<open>undefined\<close>.\<close>

definition truthy :: "string option \<Rightarrow> bool" where
  "truthy x = (case x of None \<Rightarrow> False | Some s \<Rightarrow> s \<noteq> [])"

definition room :: "string \<Rightarrow> string" where
  "room sid = ''session:'' @ sid"

definition is_cli :: "Closure \<Rightarrow> bool" where
  "is_cli c = (clientType c = Some ''cli'')"

section \<open>Relay: the handlers of an ordinary connection, on its Session object\<close>

definition broadcastControlStatus :: "string \<Rightarrow> Session \<Rightarrow> emit" where
  "broadcastControlStatus sid s =
     (ToRoom (room sid),
      (case controlLock s of
         Some l \<Rightarrow> ControlStatus True (Some (holderId l)) (holderNickname l) (Some (acquiredAt l))
       | None \<Rightarrow> ControlStatus False None None None))"

definition grant_control :: "Closure \<Rightarrow> Viewer \<Rightarrow> int \<Rightarrow> Session \<Rightarrow> Session \<times> emit list" where
  "grant_control c viewer now s =
     (let s1 = s\<lparr>controlLock :=
                  Some \<lparr>holderId = sock c, holderNickname = nickname viewer,
                        acquiredAt = now, lastInputAt = now\<rparr>\<rparr>
      in (s1, [broadcastControlStatus (sessionId c) s1]))"

text \<open>\<open>socket.on('request-control')\<close>; \<open>now\<close> is \<open>Date.now()\<close>.\<close>

definition on_request_control :: "Closure \<Rightarrow> int \<Rightarrow> Session \<Rightarrow> Session \<times> emit list" where
  "on_request_control c now s =
     (if is_cli c then (s, [])
      else
        case map_of (viewers s) (sock c) of
          None \<Rightarrow> (s, [])
        | Some viewer \<Rightarrow>
            (case controlLock s of
               Some l \<Rightarrow>
                 if now - lastInputAt l < CONTROL_LOCK_TIMEOUT \<and> holderId l \<noteq> sock c
                 then (s, [(ToSocket (sock c),
                            ControlDenied ''locked'' (holderId l) (holderNickname l))])
                 else grant_control c viewer now s
             | None \<Rightarrow> grant_control c viewer now s))"

text \<open>\<open>socket.on('release-control')\<close>.\<close>

definition on_release_control :: "Closure \<Rightarrow> Session \<Rightarrow> Session \<times> emit list" where
  "on_release_control c s =
     (if is_cli c then (s, [])
      else
        case controlLock s of
          Some l \<Rightarrow>
            if holderId l = sock c
            then (let s1 = s\<lparr>controlLock := None\<rparr> in (s1, [broadcastControlStatus (sessionId c) s1]))
            else (s, [])
        | None \<Rightarrow> (s, []))"

text \<open>A history array after \<open>push(x)\<close> and the \<open>shift()\<close> that follows when it holds over 100.\<close>

definition push_capped :: "'a \<Rightarrow> 'a list \<Rightarrow> 'a list" where
  "push_capped x h = (let h1 = h @ [x] in if length h1 > 100 then tl h1 else h1)"

text \<open>\<open>socket.on('output')\<close>.\<close>

definition on_output :: "Closure \<Rightarrow> OutputEvent \<Rightarrow> Session \<Rightarrow> Session \<times> emit list" where
  "on_output c event s =
     (if \<not> is_cli c then (s, [])
      else
        (s\<lparr>lastOutput := Some event, outputHistory := push_capped event (outputHistory s)\<rparr>,
         [(ToRoomExcept (room (sessionId c)) (sock c), OutputP event)]))"

text \<open>\<open>socket.on('encrypted-output')\<close> of an ordinary connection.\<close>

definition on_encrypted_output ::
  "Closure \<Rightarrow> EncryptedOutputEvent \<Rightarrow> Session \<Rightarrow> Session \<times> emit list" where
  "on_encrypted_output c d s =
     (if \<not> is_cli c then (s, [])
      else (s, [(ToRoom (viewerId d), EncryptedOutputP (envelope d) (eo_seq d) (eo_timestamp d))]))"

text \<open>\<open>socket.on('output-history')\<close>.\<close>

definition on_output_history ::
  "Closure \<Rightarrow> EncryptedMessage \<Rightarrow> int \<Rightarrow> int \<Rightarrow> Session \<Rightarrow> Session \<times> emit list" where
  "on_output_history c enc sq ts s =
     (if \<not> is_cli c then (s, [])
      else
        (s\<lparr>encryptedHistory :=
             push_capped \<lparr>viewerId = [], envelope = enc, eo_seq = sq, eo_timestamp = ts\<rparr>
               (encryptedHistory s)\<rparr>,
         []))"

text \<open>
  The control-lock check that opens both input handlers (their text is the same): the
  input is rejected, or it passes, possibly after an expired lock of another viewer was
  cleared and the new status broadcast.
\<close>

datatype gate = Rejected | Passed Session "emit list"

definition control_gate :: "Closure \<Rightarrow> int \<Rightarrow> Session \<Rightarrow> gate" where
  "control_gate c now s =
     (case controlLock s of
        None \<Rightarrow> Passed s []
      | Some l \<Rightarrow>
          if holderId l \<noteq> sock c then
            (if now - lastInputAt l < CONTROL_LOCK_TIMEOUT then Rejected
             else (let s1 = s\<lparr>controlLock := None\<rparr>
                   in Passed s1 [broadcastControlStatus (sessionId c) s1]))
          else Passed s [])"

text \<open>The update of \<open>lastInputAt\<close> when the sender holds the lock.\<close>

definition touch_lock :: "Closure \<Rightarrow> int \<Rightarrow> Session \<Rightarrow> Session" where
  "touch_lock c now s =
     (case controlLock s of
        Some l \<Rightarrow> if holderId l = sock c then s\<lparr>controlLock := Some (l\<lparr>lastInputAt := now\<rparr>)\<rparr> else s
      | None \<Rightarrow> s)"

text \<open>\<open>socket.on('input')\<close>.\<close>

definition on_input :: "Closure \<Rightarrow> InputData \<Rightarrow> int \<Rightarrow> Session \<Rightarrow> Session \<times> emit list" where
  "on_input c d now s =
     (if is_cli c then (s, [])
      else
        case control_gate c now s of
          Rejected \<Rightarrow> (s, [(ToSocket (sock c), InputRejected ''not-controller'')])
        | Passed s1 out \<Rightarrow>
            (let s2 = touch_lock c now s1 in
             if truthy (cliSocketId s2)
             then (s2, out @ [(ToRoom (the (cliSocketId s2)), InputP d)])
             else (s2, out @ [(ToSocket (sock c), ErrorMessage ''CLI not connected'')])))"

text \<open>\<open>socket.on('encrypted-input')\<close>.\<close>

definition on_encrypted_input ::
  "Closure \<Rightarrow> EncryptedMessage \<Rightarrow> int \<Rightarrow> Session \<Rightarrow> Session \<times> emit list" where
  "on_encrypted_input c enc now s =
     (if is_cli c then (s, [])
      else
        case control_gate c now s of
          Rejected \<Rightarrow> (s, [(ToSocket (sock c), InputRejected ''not-controller'')])
        | Passed s1 out \<Rightarrow>
            (let s2 = touch_lock c now s1 in
             if truthy (cliSocketId s2)
             then (s2, out @ [(ToRoom (the (cliSocketId s2)), EncryptedInputP (sock c) enc)])
             else (s2, out @ [(ToSocket (sock c), ErrorMessage ''CLI not connected'')])))"


text \<open>\<open>socket.on('get-history')\<close>.\<close>

definition on_get_history :: "Closure \<Rightarrow> Session \<Rightarrow> Session \<times> emit list" where
  "on_get_history c s =
     (if encrypted s then (s, [(ToSocket (sock c), EncryptedHistoryP (encryptedHistory s))])
      else (s, [(ToSocket (sock c), HistoryP (outputHistory s))]))"

text \<open>
  \<open>socket.on('disconnect')\<close>, the part before the timer: the producer branch when this
  socket is a \<open>cli\<close> and is the bound producer, the viewer branch otherwise.
\<close>

definition on_disconnect :: "Closure \<Rightarrow> Session \<Rightarrow> Session \<times> emit list" where
  "on_disconnect c s =
     (if is_cli c \<and> cliSocketId s = Some (sock c) then
        (s\<lparr>cliSocketId := None, cliPublicKey := None\<rparr>,
         [(ToRoom (room (sessionId c)), CliStatus False None (encrypted s))])
      else
        let (s1, out1) =
              (if (case controlLock s of Some l \<Rightarrow> holderId l = sock c | None \<Rightarrow> False)
               then (let s' = s\<lparr>controlLock := None\<rparr>
                     in (s', [broadcastControlStatus (sessionId c) s']))
               else (s, []));
            out2 =
              (if truthy (cliSocketId s1)
               then [(ToRoom (the (cliSocketId s1)), ViewerLeft (sock c))] else [])
        in (s1\<lparr>viewers := AList.delete (sock c) (viewers s1)\<rparr>, out1 @ out2))"

text \<open>The object a connection creates for an unknown session id.\<close>

definition new_session :: "string \<Rightarrow> string option \<Rightarrow> int \<Rightarrow> Session" where
  "new_session sid uid now =
     \<lparr>sess_id = sid, userId = uid, cliSocketId = None, cliPublicKey = None,
      daemonSocketId = None, viewers = [], lastOutput = None, outputHistory = [],
      encryptedHistory = [], encrypted = False, controlLock = None, createdAt = now\<rparr>"

text \<open>The \<open>cli\<close> branch of a connection: the socket becomes the bound producer.\<close>

definition bind_cli :: "Closure \<Rightarrow> string option \<Rightarrow> Session \<Rightarrow> Session \<times> emit list" where
  "bind_cli c pk s =
     (let s1 = s\<lparr>cliSocketId := Some (sock c), cliPublicKey := pk, encrypted := truthy pk\<rparr>
      in (s1, [(ToRoom (room (sessionId c)), CliStatus True (cliPublicKey s1) (encrypted s1))]))"

text \<open>The other branch of a connection: the socket is recorded as a viewer.\<close>

definition bind_viewer ::
  "Closure \<Rightarrow> string option \<Rightarrow> string option \<Rightarrow> Session \<Rightarrow> Session \<times> emit list" where
  "bind_viewer c pk nick s =
     (let viewer = \<lparr>socketId = sock c, publicKey = (case pk of None \<Rightarrow> [] | Some k \<Rightarrow> k),
                    nickname = nick\<rparr>;
          s1 = s\<lparr>viewers := AList.update (sock c) viewer (viewers s)\<rparr>;
          joined =
            (if encrypted s1 \<and> truthy (cliSocketId s1) \<and> truthy pk
             then [(ToRoom (the (cliSocketId s1)), ViewerJoined (sock c) (the pk))] else []);
          last =
            (if \<not> encrypted s1 \<and> lastOutput s1 \<noteq> None
             then [(ToSocket (sock c), OutputP (the (lastOutput s1)))] else [])
      in (s1,
          joined @ last @
          [(ToSocket (sock c),
            CliStatus (truthy (cliSocketId s1)) (cliPublicKey s1) (encrypted s1)),
           broadcastControlStatus (sessionId c) s1]))"

section \<open>Relay: the whole server state and its events\<close>

text \<open>
  The module-level maps of the server, the \<open>Session\<close> objects they and the connection
  closures refer to, and the timers that are armed.
  \<^item> \<open>sessions\<close> is the \<open>Map\<close> from session id to \<open>Session\<close> object; a reference is the
    object's index in \<open>objs\<close>. An object deleted from the map stays in \<open>objs\<close>, as it stays
    reachable from the closures of the connections that found it.
  \<^item> \<open>conns\<close> holds the closure of every connected ordinary socket, \<open>cliDaemons\<close> the record
    of every connected daemon socket.
  \<^item> \<open>pendingCommands\<close> maps a command id to the HTTP request whose promise its entry
    resolves; \<open>commandTimers\<close> are the armed 10 s timeouts (request, command id, due time);
    \<open>reapTimers\<close> are the armed 60 s timers of the disconnect handler (session id, due
    time).
\<close>

record Relay =
  sessions :: "(string \<times> nat) list"
  objs :: "Session list"
  conns :: "(string \<times> Closure) list"
  cliDaemons :: "(string \<times> CLIDaemon) list"
  userSessions :: "(string \<times> string list) list"
  pendingCommands :: "(string \<times> nat) list"
  commandTimers :: "(nat \<times> string \<times> int) list"
  reapTimers :: "(string \<times> int) list"

definition empty_relay :: Relay where
  "empty_relay =
     \<lparr>sessions = [], objs = [], conns = [], cliDaemons = [], userSessions = [],
      pendingCommands = [], commandTimers = [], reapTimers = []\<rparr>"

text \<open>\<open>Set.add\<close> on a set kept in insertion order.\<close>

definition set_add :: "'a \<Rightarrow> 'a list \<Rightarrow> 'a list" where
  "set_add x xs = (if x \<in> set xs then xs else xs @ [x])"

definition add_user_session ::
  "string \<Rightarrow> string \<Rightarrow> (string \<times> string list) list \<Rightarrow> (string \<times> string list) list" where
  "add_user_session uid sid us =
     AList.update uid (set_add sid (case map_of us uid of None \<Rightarrow> [] | Some xs \<Rightarrow> xs)) us"

text \<open>\<open>userSecret ? deriveUserId(userSecret) : null\<close>; the hash \<open>H\<close> is a parameter.\<close>

definition derive_user :: "(string \<Rightarrow> string) \<Rightarrow> string option \<Rightarrow> string option" where
  "derive_user H secret = (if truthy secret then Some (H (the secret)) else None)"

text \<open>Whether \<open>io.sockets.sockets\<close> holds the socket.\<close>

definition socket_connected :: "Relay \<Rightarrow> string \<Rightarrow> bool" where
  "socket_connected r sk = (map_of (conns r) sk \<noteq> None \<or> map_of (cliDaemons r) sk \<noteq> None)"

text \<open>Running a handler of an ordinary connection on the object in its closure.\<close>

definition with_session ::
  "string \<Rightarrow> (Closure \<Rightarrow> Session \<Rightarrow> Session \<times> emit list) \<Rightarrow> Relay \<Rightarrow> Relay \<times> emit list" where
  "with_session sk h r =
     (case map_of (conns r) sk of
        None \<Rightarrow> (r, [])
      | Some c \<Rightarrow>
          if session c < length (objs r)
          then (let (s1, out) = h c (objs r ! session c)
                in (r\<lparr>objs := (objs r)[session c := s1]\<rparr>, out))
          else (r, []))"

text \<open>
  \<open>io.on('connection')\<close>. Socket ids are unique, so a connection under an id in use does
  not occur and changes nothing here.
\<close>

definition on_connection ::
  "(string \<Rightarrow> string) \<Rightarrow> string \<Rightarrow> Handshake \<Rightarrow> int \<Rightarrow> Relay \<Rightarrow> Relay \<times> emit list" where
  "on_connection H sk q now r =
     (if socket_connected r sk then (r, [])
      else if q_clientType q = Some ''cli-daemon'' then
        (r\<lparr>cliDaemons :=
             AList.update sk
               \<lparr>d_socketId = sk, d_userId = derive_user H (q_userSecret q),
                activeSessions = [], connectedAt = now\<rparr> (cliDaemons r)\<rparr>, [])
      else if \<not> truthy (q_sessionId q) then (r, [])
      else
        let sid = the (q_sessionId q);
            cli = (q_clientType q = Some ''cli'');
            uid = derive_user H (q_userSecret q);
            r1 = (case map_of (sessions r) sid of
                    Some a \<Rightarrow> r
                  | None \<Rightarrow>
                      r\<lparr>objs := objs r @ [new_session sid (if cli then uid else None) now],
                        sessions := AList.update sid (length (objs r)) (sessions r),
                        userSessions :=
                          (if cli \<and> truthy uid
                           then add_user_session (the uid) sid (userSessions r)
                           else userSessions r)\<rparr>);
            a = the (map_of (sessions r1) sid);
            c = \<lparr>sock = sk, sessionId = sid, clientType = q_clientType q, session = a\<rparr>
        in if a < length (objs r1) then
             (let (s1, out) =
                    (if cli then bind_cli c (q_publicKey q) (objs r1 ! a)
                     else bind_viewer c (q_publicKey q) (q_nickname q) (objs r1 ! a))
              in (r1\<lparr>objs := (objs r1)[a := s1], conns := AList.update sk c (conns r1)\<rparr>, out))
           else (r, []))"

text \<open>
  The disconnect of an ordinary socket: the handler on its session object, then the 60 s
  timer is armed; the socket is gone from \<open>io.sockets.sockets\<close>.
\<close>

definition on_socket_disconnect :: "string \<Rightarrow> int \<Rightarrow> Relay \<Rightarrow> Relay \<times> emit list" where
  "on_socket_disconnect sk now r =
     (case map_of (conns r) sk of
        None \<Rightarrow> (r, [])
      | Some c \<Rightarrow>
          (let (r1, out) = with_session sk on_disconnect r
           in (r1\<lparr>conns := AList.delete sk (conns r1),
                  reapTimers := reapTimers r1 @ [(sessionId c, now + 60000)]\<rparr>, out)))"

text \<open>The callback of the 60 s timer.\<close>

definition reap :: "string \<Rightarrow> Relay \<Rightarrow> Relay" where
  "reap sid r =
     (case map_of (sessions r) sid of
        None \<Rightarrow> r
      | Some a \<Rightarrow>
          if a < length (objs r) \<and> \<not> truthy (cliSocketId (objs r ! a)) \<and>
             length (viewers (objs r ! a)) = 0
          then r\<lparr>sessions := AList.delete sid (sessions r)\<rparr>
          else r)"

text \<open>
  A reap timer firing at time \<open>now\<close>: it fires only if it is armed and due, and is then
  disarmed.
\<close>

definition on_reap_timer :: "string \<Rightarrow> int \<Rightarrow> int \<Rightarrow> Relay \<Rightarrow> Relay \<times> emit list" where
  "on_reap_timer sid due now r =
     (if (sid, due) \<in> set (reapTimers r) \<and> due \<le> now
      then (reap sid (r\<lparr>reapTimers := remove1 (sid, due) (reapTimers r)\<rparr>), [])
      else (r, []))"

subsection \<open>Daemon connections\<close>

text \<open>\<open>socket.on('cli-command')\<close> of a daemon socket: the message is sent back on it.\<close>

definition on_cli_command :: "string \<Rightarrow> CommandMessage \<Rightarrow> Relay \<Rightarrow> Relay \<times> emit list" where
  "on_cli_command sk msg r = (r, [(ToSocket sk, CliCommandP msg)])"

text \<open>\<open>socket.on('cli-response')\<close>.\<close>

definition on_cli_response :: "string \<Rightarrow> CommandResponse \<Rightarrow> Relay \<Rightarrow> Relay \<times> emit list" where
  "on_cli_response sk response r =
     (let (r1, out1) =
            (case map_of (pendingCommands r) (r_commandId response) of
               Some req \<Rightarrow>
                 (r\<lparr>commandTimers := filter (\<lambda>t. fst t \<noteq> req) (commandTimers r),
                   pendingCommands := AList.delete (r_commandId response) (pendingCommands r)\<rparr>,
                  [(ToHttp req,
                    if success response then HttpSuccess (r_data response)
                    else HttpError (case r_error response of
                                      None \<Rightarrow> ''Command failed'' | Some e \<Rightarrow> e))])
             | None \<Rightarrow> (r, []))
      in (r1, out1 @ [(ToAll, CliResponseP response)]))"

text \<open>\<open>socket.on('session-attached')\<close>.\<close>

definition on_session_attached ::
  "string \<Rightarrow> string \<Rightarrow> string \<Rightarrow> bool \<Rightarrow> int \<Rightarrow> Relay \<Rightarrow> Relay \<times> emit list" where
  "on_session_attached sk sid pk enc now r =
     (case map_of (cliDaemons r) sk of
        None \<Rightarrow> (r, [])
      | Some daemon \<Rightarrow>
          (let r1 = r\<lparr>cliDaemons :=
                       AList.update sk
                         (daemon\<lparr>activeSessions := set_add sid (activeSessions daemon)\<rparr>)
                         (cliDaemons r)\<rparr>;
               r2 = (case map_of (sessions r1) sid of
                       None \<Rightarrow>
                         r1\<lparr>objs := objs r1 @
                               [\<lparr>sess_id = sid, userId = d_userId daemon, cliSocketId = None,
                                 cliPublicKey = Some pk, daemonSocketId = Some sk, viewers = [],
                                 lastOutput = None, outputHistory = [], encryptedHistory = [],
                                 encrypted = enc, controlLock = None, createdAt = now\<rparr>],
                            sessions := AList.update sid (length (objs r1)) (sessions r1)\<rparr>
                     | Some a \<Rightarrow>
                         if a < length (objs r1)
                         then r1\<lparr>objs := (objs r1)[a := (objs r1 ! a)
                                   \<lparr>daemonSocketId := Some sk, cliPublicKey := Some pk,
                                    encrypted := enc\<rparr>]\<rparr>
                         else r1);
               r3 = (if truthy (d_userId daemon)
                     then r2\<lparr>userSessions :=
                               add_user_session (the (d_userId daemon)) sid (userSessions r2)\<rparr>
                     else r2)
           in (r3, [(ToRoom (room sid), CliStatus True (Some pk) enc)])))"

text \<open>
  The release of one session by a daemon socket, as \<open>session-detached\<close> and the daemon's
  disconnect both do it: only if the session is bound to this daemon.
\<close>

definition unbind_daemon :: "string \<Rightarrow> string \<Rightarrow> Relay \<Rightarrow> Relay \<times> emit list" where
  "unbind_daemon sk sid r =
     (case map_of (sessions r) sid of
        None \<Rightarrow> (r, [])
      | Some a \<Rightarrow>
          if a < length (objs r) \<and> daemonSocketId (objs r ! a) = Some sk
          then (r\<lparr>objs := (objs r)[a := (objs r ! a)\<lparr>daemonSocketId := None, cliPublicKey := None\<rparr>]\<rparr>,
                [(ToRoom (room sid), CliStatus False None (encrypted (objs r ! a)))])
          else (r, []))"

text \<open>\<open>socket.on('session-detached')\<close>.\<close>

definition on_session_detached :: "string \<Rightarrow> string \<Rightarrow> Relay \<Rightarrow> Relay \<times> emit list" where
  "on_session_detached sk sid r =
     (case map_of (cliDaemons r) sk of
        None \<Rightarrow> (r, [])
      | Some daemon \<Rightarrow>
          unbind_daemon sk sid
            (r\<lparr>cliDaemons :=
                 AList.update sk
                   (daemon\<lparr>activeSessions := removeAll sid (activeSessions daemon)\<rparr>)
                   (cliDaemons r)\<rparr>))"

text \<open>\<open>socket.on('encrypted-output')\<close> of a daemon socket.\<close>

definition on_daemon_encrypted_output ::
  "string \<Rightarrow> EncryptedOutputEvent \<Rightarrow> Relay \<Rightarrow> Relay \<times> emit list" where
  "on_daemon_encrypted_output sk d r =
     (r, [(ToRoom (viewerId d), EncryptedOutputP (envelope d) (eo_seq d) (eo_timestamp d))])"

text \<open>The loop of the daemon's disconnect handler over its active sessions.\<close>

fun unbind_all :: "string \<Rightarrow> string list \<Rightarrow> Relay \<Rightarrow> Relay \<times> emit list" where
  "unbind_all sk [] r = (r, [])"
| "unbind_all sk (sid # sids) r =
     (let (r1, out1) = unbind_daemon sk sid r;
          (r2, out2) = unbind_all sk sids r1
      in (r2, out1 @ out2))"

definition on_daemon_disconnect :: "string \<Rightarrow> Relay \<Rightarrow> Relay \<times> emit list" where
  "on_daemon_disconnect sk r =
     (case map_of (cliDaemons r) sk of
        None \<Rightarrow> (r, [])
      | Some daemon \<Rightarrow>
          (let (r1, out) = unbind_all sk (activeSessions daemon) r
           in (r1\<lparr>cliDaemons := AList.delete sk (cliDaemons r1)\<rparr>, out)))"

subsection \<open>The HTTP route POST /api/daemon/command\<close>

text \<open>
  \<open>req\<close> names the HTTP request (and so the promise the route returns), \<open>cmd\<close> and \<open>ps\<close>
  are the fields \<open>command\<close> and \<open>params\<close> of its body, \<open>cid\<close> is the command id generated
  from the clock and the random source, \<open>now\<close> the time at which the timeout is armed.
  The request carries a JSON body (the route reads the two fields off \<open>request.body\<close>); a
  field the body lacks is \<open>None\<close>.
\<close>

definition on_post_daemon_command ::
  "nat \<Rightarrow> string option \<Rightarrow> (string \<times> string) list option \<Rightarrow> string \<Rightarrow> int \<Rightarrow> Relay \<Rightarrow>
   Relay \<times> emit list" where
  "on_post_daemon_command req cmd ps cid now r =
     (if \<not> truthy cmd then (r, [(ToHttp req, HttpError ''command is required'')])
      else
        case cliDaemons r of
          [] \<Rightarrow> (r, [(ToHttp req, HttpError ''No CLI daemon connected'')])
        | (k, daemon) # rest \<Rightarrow>
            if \<not> socket_connected r (d_socketId daemon)
            then (r, [(ToHttp req, HttpError ''Daemon socket not found'')])
            else
              (r\<lparr>commandTimers := commandTimers r @ [(req, cid, now + 10000)],
                 pendingCommands := AList.update cid req (pendingCommands r)\<rparr>,
               [(ToSocket (d_socketId daemon),
                 CliCommandP \<lparr>commandId = cid, command = the cmd, params = ps\<rparr>)]))"

text \<open>The 10 s timeout of a request firing at time \<open>now\<close>, if it is still armed and due.\<close>

definition on_command_timeout :: "nat \<Rightarrow> int \<Rightarrow> Relay \<Rightarrow> Relay \<times> emit list" where
  "on_command_timeout req now r =
     (case filter (\<lambda>t. fst t = req) (commandTimers r) of
        [] \<Rightarrow> (r, [])
      | (q, cid, due) # rest \<Rightarrow>
          if due \<le> now
          then (r\<lparr>commandTimers := filter (\<lambda>t. fst t \<noteq> req) (commandTimers r),
                  pendingCommands := AList.delete cid (pendingCommands r)\<rparr>,
                [(ToHttp req, HttpError ''Command timeout'')])
          else (r, []))"

subsection \<open>Events and runs\<close>

datatype event =
    Connection string Handshake int
  | RequestControl string int
  | ReleaseControl string
  | OutputMsg string OutputEvent
  | EncryptedOutputMsg string EncryptedOutputEvent
  | OutputHistoryMsg string EncryptedMessage int int
  | InputMsg string InputData int
  | EncryptedInputMsg string EncryptedMessage int
  | GetHistory string
  | Disconnect string int
  | CliCommandMsg string CommandMessage
  | CliResponseMsg string CommandResponse
  | SessionAttached string string string bool int
  | SessionDetached string string
  | ActiveSessions string
  | PostDaemonCommand nat "string option" "(string \<times> string) list option" string int
  | CommandTimeout nat int
  | ReapTimer string int int

text \<open>
  One event on the relay. A message on a socket runs the handler registered for it on
  that kind of socket (daemon sockets and ordinary sockets register different handlers),
  and nothing otherwise.
\<close>

fun relay_step :: "(string \<Rightarrow> string) \<Rightarrow> event \<Rightarrow> Relay \<Rightarrow> Relay \<times> emit list" where
  "relay_step H (Connection sk q now) r = on_connection H sk q now r"
| "relay_step H (RequestControl sk now) r = with_session sk (\<lambda>c. on_request_control c now) r"
| "relay_step H (ReleaseControl sk) r = with_session sk on_release_control r"
| "relay_step H (OutputMsg sk ev) r = with_session sk (\<lambda>c. on_output c ev) r"
| "relay_step H (EncryptedOutputMsg sk d) r =
     (if map_of (cliDaemons r) sk \<noteq> None then on_daemon_encrypted_output sk d r
      else with_session sk (\<lambda>c. on_encrypted_output c d) r)"
| "relay_step H (OutputHistoryMsg sk enc sq ts) r =
     with_session sk (\<lambda>c. on_output_history c enc sq ts) r"
| "relay_step H (InputMsg sk d now) r = with_session sk (\<lambda>c. on_input c d now) r"
| "relay_step H (EncryptedInputMsg sk enc now) r =
     with_session sk (\<lambda>c. on_encrypted_input c enc now) r"
| "relay_step H (GetHistory sk) r = with_session sk on_get_history r"
| "relay_step H (Disconnect sk now) r =
     (if map_of (cliDaemons r) sk \<noteq> None then on_daemon_disconnect sk r
      else on_socket_disconnect sk now r)"
| "relay_step H (CliCommandMsg sk msg) r =
     (if map_of (cliDaemons r) sk \<noteq> None then on_cli_command sk msg r else (r, []))"
| "relay_step H (CliResponseMsg sk response) r =
     (if map_of (cliDaemons r) sk \<noteq> None then on_cli_response sk response r else (r, []))"
| "relay_step H (SessionAttached sk sid pk enc now) r = on_session_attached sk sid pk enc now r"
| "relay_step H (SessionDetached sk sid) r = on_session_detached sk sid r"
| "relay_step H (ActiveSessions sk) r = (r, [])"
| "relay_step H (PostDaemonCommand req cmd ps cid now) r =
     on_post_daemon_command req cmd ps cid now r"
| "relay_step H (CommandTimeout req now) r = on_command_timeout req now r"
| "relay_step H (ReapTimer sid due now) r = on_reap_timer sid due now r"

fun relay_run :: "(string \<Rightarrow> string) \<Rightarrow> event list \<Rightarrow> Relay \<Rightarrow> Relay" where
  "relay_run H [] r = r"
| "relay_run H (e # es) r = relay_run H es (fst (relay_step H e r))"

text \<open>The ring bound of claim C6, for every \<open>Session\<close> object of the relay.\<close>

definition history_ok :: "Session \<Rightarrow> bool" where
  "history_ok s = (length (outputHistory s) \<le> 100 \<and> length (encryptedHistory s) \<le> 100)"

definition histories_bounded :: "Relay \<Rightarrow> bool" where
  "histories_bounded r = (\<forall>s \<in> set (objs r). history_ok s)"

text \<open>Every reference held by the session map points at an object.\<close>

definition refs_ok :: "Relay \<Rightarrow> bool" where
  "refs_ok r = (\<forall>sid a. map_of (sessions r) sid = Some a \<longrightarrow> a < length (objs r))"

text \<open>Every daemon record is filed under its own socket id.\<close>

definition daemons_keyed :: "Relay \<Rightarrow> bool" where
  "daemons_keyed r = (\<forall>k d. map_of (cliDaemons r) k = Some d \<longrightarrow> d_socketId d = k)"

section \<open>Sample connections\<close>

text \<open>Handshakes of a viewer, of a producer and of a daemon, for runs on concrete inputs.\<close>

definition viewer_query :: "string \<Rightarrow> Handshake" where
  "viewer_query sid =
     \<lparr>q_sessionId = Some sid, q_clientType = Some ''viewer'', q_publicKey = None,
      q_nickname = None, q_userSecret = None\<rparr>"

definition cli_query :: "string \<Rightarrow> Handshake" where
  "cli_query sid =
     \<lparr>q_sessionId = Some sid, q_clientType = Some ''cli'', q_publicKey = Some ''cHVibGlj'',
      q_nickname = None, q_userSecret = None\<rparr>"

definition daemon_query :: Handshake where
  "daemon_query =
     \<lparr>q_sessionId = None, q_clientType = Some ''cli-daemon'', q_publicKey = None,
      q_nickname = None, q_userSecret = None\<rparr>"


definition two_viewers_and_cli :: Relay where
  "two_viewers_and_cli =
     relay_run id
       [Connection ''P'' (cli_query ''demo'') 0, Connection ''A'' (viewer_query ''demo'') 0,
        Connection ''B'' (viewer_query ''demo'') 0, RequestControl ''A'' 0] empty_relay"

definition viewer_B :: Closure where
  "viewer_B = \<lparr>sock = ''B'', sessionId = ''demo'', clientType = Some ''viewer'', session = 0\<rparr>"

definition viewer_A :: Closure where
  "viewer_A = \<lparr>sock = ''A'', sessionId = ''demo'', clientType = Some ''viewer'', session = 0\<rparr>"

definition lock_of_A :: ControlLock where
  "lock_of_A = \<lparr>holderId = ''A'', holderNickname = None, acquiredAt = 0, lastInputAt = 0\<rparr>"


text \<open>
  A run in which producer \<open>P1\<close> of session \<open>demo\<close> is replaced by a second producer
  connection \<open>P2\<close> while \<open>P1\<close> is still connected.
\<close>

definition replaced_cli :: Relay where
  "replaced_cli =
     relay_run id
       [Connection ''P1'' (cli_query ''demo'') 0, Connection ''V'' (viewer_query ''demo'') 1,
        Connection ''P2'' (cli_query ''demo'') 2] empty_relay"

definition old_cli :: Closure where
  "old_cli = \<lparr>sock = ''P1'', sessionId = ''demo'', clientType = Some ''cli'', session = 0\<rparr>"

text \<open>A connected producer client paired with viewers \<open>A\<close> and \<open>B\<close>, and a nonce source.\<close>

definition paired_client :: EncryptedWSClient where
  "paired_client =
     \<lparr>connected = True, sharedSecrets = [(''A'', replicate 32 1), (''B'', replicate 32 2)],
      lastOutputEvent = None\<rparr>"

definition zero_nonces :: "nat \<Rightarrow> bytes" where
  "zero_nonces k = replicate 24 0"

definition producer_P :: Closure where
  "producer_P = \<lparr>sock = ''P'', sessionId = ''demo'', clientType = Some ''cli'', session = 0\<rparr>"

text \<open>A producer that connects and sends 101 plaintext frames.\<close>

definition busy_producer :: "event list" where
  "busy_producer =
     Connection ''P'' (cli_query ''demo'') 0 #
     replicate 101 (OutputMsg ''P'' hello_event)"

text \<open>
  A relay with one daemon \<open>D\<close> connected, and a run in which \<open>D\<close> attaches session \<open>demo\<close>,
  a viewer \<open>V\<close> joins and leaves again, and the viewer's 60 s timer fires.
\<close>

definition one_daemon :: Relay where
  "one_daemon = relay_run id [Connection ''D'' daemon_query 0] empty_relay"

definition daemon_session_visit :: "event list" where
  "daemon_session_visit =
     [Connection ''D'' daemon_query 0, SessionAttached ''D'' ''demo'' ''cHVibGlj'' True 1,
      Connection ''V'' (viewer_query ''demo'') 2, Disconnect ''V'' 3]"

definition list_sessions_ok :: CommandResponse where
  "list_sessions_ok =
     \<lparr>r_commandId = ''cmd_1'', success = True, r_data = Some (JArr []), r_error = None\<rparr>"

definition list_sessions_failed :: CommandResponse where
  "list_sessions_failed =
     \<lparr>r_commandId = ''cmd_1'', success = False, r_data = None, r_error = Some ''tmux missing''\<rparr>"

chapter \<open>Properties\<close>

text \<open>All the definitions a run on concrete inputs unfolds.\<close>

lemmas relay_eval =
  empty_relay_def on_connection_def socket_connected_def viewer_query_def cli_query_def
  daemon_query_def truthy_def derive_user_def new_session_def bind_viewer_def bind_cli_def
  Let_def with_session_def on_request_control_def on_release_control_def is_cli_def
  grant_control_def broadcastControlStatus_def room_def on_input_def on_encrypted_input_def
  control_gate_def touch_lock_def CONTROL_LOCK_TIMEOUT_def on_output_def push_capped_def
  on_encrypted_output_def on_output_history_def on_get_history_def on_disconnect_def
  on_socket_disconnect_def reap_def on_reap_timer_def on_cli_command_def on_cli_response_def
  on_session_attached_def unbind_daemon_def on_session_detached_def
  on_daemon_encrypted_output_def on_daemon_disconnect_def on_post_daemon_command_def
  on_command_timeout_def set_add_def add_user_session_def

section \<open>The capture loop\<close>

lemma capture_step_seq:
  "capture_step op c = (c', new) \<Longrightarrow>
   map seq new = [cap_seq c + 1 .. cap_seq c'] \<and> cap_seq c' = cap_seq c + int (length new)"
  by (cases op) (auto simp: start_def poll_def stop_def Let_def split: if_splits)

lemma upto_from_one_split:
  assumes "0 \<le> j" and "j \<le> k"
  shows "[1 .. k] = [1 .. j] @ [j + 1 .. k]"
proof (cases "j = 0")
  case True
  then show ?thesis by simp
next
  case False
  then have "1 \<le> j" using assms(1) by simp
  then show ?thesis using assms(2) by (rule upto_split2)
qed

lemma cap_inv_step:
  assumes "cap_inv (c, evs, prev)" and "capture_step op c = (c', new)"
  shows "cap_inv (c', evs @ new, (case captured_by op c of None \<Rightarrow> prev | Some x \<Rightarrow> Some x))"
proof -
  from capture_step_seq[OF assms(2)]
  have s: "map seq new = [cap_seq c + 1 .. cap_seq c']" "cap_seq c' = cap_seq c + int (length new)"
    by auto
  have "0 \<le> cap_seq c" "cap_seq c \<le> cap_seq c'"
    using assms(1) s by (auto simp: cap_inv_def)
  then have "[1 .. cap_seq c'] = [1 .. cap_seq c] @ [cap_seq c + 1 .. cap_seq c']"
    by (rule upto_from_one_split)
  moreover have "(intervalHandle c' = running c') \<and> (callback c' = running c') \<and>
     (running c' \<longrightarrow>
        (case captured_by op c of None \<Rightarrow> prev | Some x \<Rightarrow> Some x) = Some (lastContent c'))"
    using assms
    by (cases op) (auto simp: cap_inv_def start_def poll_def stop_def Let_def split: if_splits)
  ultimately show ?thesis using assms(1) s by (simp add: cap_inv_def)
qed

lemma cap_inv_run: "cap_inv st \<Longrightarrow> cap_inv (capture_run ops st)"
proof (induction ops arbitrary: st)
  case Nil
  then show ?case by simp
next
  case (Cons op ops)
  obtain c evs prev where st: "st = (c, evs, prev)" by (cases st) auto
  obtain c' new where step: "capture_step op c = (c', new)" by (cases "capture_step op c") auto
  have "cap_inv (c', evs @ new, (case captured_by op c of None \<Rightarrow> prev | Some x \<Rightarrow> Some x))"
    using cap_inv_step Cons.prems st step by blast
  then show ?case using Cons.IH st step by simp
qed

lemma cap_inv_trace: "cap_inv (capture_trace ops)"
  unfolding capture_trace_def by (rule cap_inv_run) (simp add: cap_inv_def new_TmuxCapture_def)

text \<open>
  Claim C5, as amended. Take any sequence of \<open>start\<close>, timer ticks and \<open>stop\<close> on a fresh
  capture object, ending in object \<open>c\<close> with the events \<open>evs\<close> emitted so far and \<open>prev\<close> the
  snapshot read last. The emitted events are numbered 1, 2, 3, ... without gaps, so the
  first has \<open>seq = 1\<close> and each next one is one greater. While the poll timer is armed, a
  poll that reads \<open>cur\<close> emits an event exactly when \<open>cur\<close> differs from the snapshot read
  last, and that event has the next sequence number and the content \<open>cur\<close>; so two
  identical consecutive captures never produce two frames when the second one is a poll:
  a second poll reading the same \<open>cur\<close> emits nothing, and neither does a poll that reads
  what the preceding \<open>start\<close> has read. A \<open>start\<close> compares with nothing: on the fresh object
  it emits its initial snapshot, as event 1, exactly when that snapshot is non-empty, and
  on any stopped object it emits its snapshot under the next number exactly when it is
  non-empty, also when it equals the snapshot read last.
\<close>

theorem capture_poll_emits_iff_changed:
  assumes "capture_trace ops = (c, evs, prev)"
  shows "map seq evs = [1 .. int (length evs)] \<and>
     snd (start x now new_TmuxCapture) =
       (if x \<noteq> [] then [\<lparr>seq = 1, content = x, timestamp = now\<rparr>] else []) \<and>
     snd (start x now c) =
       (if \<not> running c \<and> x \<noteq> []
        then [\<lparr>seq = int (length evs) + 1, content = x, timestamp = now\<rparr>] else []) \<and>
     (intervalHandle c \<longrightarrow>
        snd (capture_step (Poll cur now) c) =
          (if Some cur \<noteq> prev
           then [\<lparr>seq = int (length evs) + 1, content = cur, timestamp = now\<rparr>] else []) \<and>
        snd (capture_step (Poll cur now') (fst (capture_step (Poll cur now) c))) = []) \<and>
     (\<not> running c \<longrightarrow>
        snd (capture_step (Poll cur now') (fst (capture_step (Start cur now) c))) = [])"
proof -
  have inv: "cap_inv (c, evs, prev)"
    using cap_inv_trace[of ops] assms by simp
  have numbered: "map seq evs = [1 .. int (length evs)]"
    using inv by (simp add: cap_inv_def)
  have initial: "snd (start x now new_TmuxCapture) =
       (if x \<noteq> [] then [\<lparr>seq = 1, content = x, timestamp = now\<rparr>] else [])"
    by (simp add: start_def new_TmuxCapture_def)
  have restarted: "snd (start x now c) =
       (if \<not> running c \<and> x \<noteq> []
        then [\<lparr>seq = int (length evs) + 1, content = x, timestamp = now\<rparr>] else [])"
    using inv by (simp add: cap_inv_def start_def)
  have polled: "intervalHandle c \<longrightarrow>
        snd (capture_step (Poll cur now) c) =
          (if Some cur \<noteq> prev
           then [\<lparr>seq = int (length evs) + 1, content = cur, timestamp = now\<rparr>] else []) \<and>
        snd (capture_step (Poll cur now') (fst (capture_step (Poll cur now) c))) = []"
    using inv by (auto simp: cap_inv_def poll_def Let_def)
  have started: "\<not> running c \<longrightarrow>
        snd (capture_step (Poll cur now') (fst (capture_step (Start cur now) c))) = []"
    by (auto simp: start_def poll_def Let_def)
  show ?thesis using numbered initial restarted polled started by blast
qed

theorem capture_poll_emits_iff_changed_witness:
  "capture_trace [Start ''a'' 5, Poll ''b'' 6] =
     (\<lparr>running = True, cap_seq = 2, lastContent = ''b'', intervalHandle = True, callback = True\<rparr>,
      [\<lparr>seq = 1, content = ''a'', timestamp = 5\<rparr>, \<lparr>seq = 2, content = ''b'', timestamp = 6\<rparr>],
      Some ''b'') \<and>
   snd (capture_step (Poll ''b'' 7)
     \<lparr>running = True, cap_seq = 2, lastContent = ''b'', intervalHandle = True, callback = True\<rparr>) = [] \<and>
   snd (capture_step (Poll ''c'' 7)
     \<lparr>running = True, cap_seq = 2, lastContent = ''b'', intervalHandle = True, callback = True\<rparr>) =
     [\<lparr>seq = 3, content = ''c'', timestamp = 7\<rparr>]"
proof -
  have t: "capture_trace [Start ''a'' 5, Poll ''b'' 6] =
     (\<lparr>running = True, cap_seq = 2, lastContent = ''b'', intervalHandle = True, callback = True\<rparr>,
      [\<lparr>seq = 1, content = ''a'', timestamp = 5\<rparr>, \<lparr>seq = 2, content = ''b'', timestamp = 6\<rparr>],
      Some ''b'')"
    by (simp add: capture_trace_def new_TmuxCapture_def start_def poll_def Let_def)
  show ?thesis
    using t capture_poll_emits_iff_changed[OF t, of "[]" 7 "''b''" 8]
      capture_poll_emits_iff_changed[OF t, of "[]" 7 "''c''" 8]
    by simp
qed

text \<open>
  Claim C5 as stated fails across a restart: \<open>start\<close>, \<open>stop\<close> and \<open>start\<close> again, both
  reading the same pane content, are two identical consecutive captures and produce two
  frames, numbered 1 and 2.
\<close>

theorem restart_reemits_same_snapshot:
  "capture_trace [Start ''a'' 0, Stop, Start ''a'' 1] =
     (\<lparr>running = True, cap_seq = 2, lastContent = ''a'', intervalHandle = True, callback = True\<rparr>,
      [\<lparr>seq = 1, content = ''a'', timestamp = 0\<rparr>, \<lparr>seq = 2, content = ''a'', timestamp = 1\<rparr>],
      Some ''a'')"
  by (simp add: capture_trace_def new_TmuxCapture_def start_def stop_def Let_def)

section \<open>The crypto envelope\<close>

lemma byte_char_byte: "(of_nat (of_char (char_of (unat (w :: 8 word)) :: char)) :: 8 word) = w"
proof -
  have "unat w < 2 ^ 8" using unsigned_less[of w, where 'a = nat] by simp
  then have "unat w mod 256 = unat w" by simp
  then have "(of_char (char_of (unat w) :: char) :: nat) = unat w" by simp
  then show ?thesis by simp
qed

lemma char_byte_char: "char_of (unat (of_nat (of_char (c :: char)) :: 8 word)) = c"
proof -
  have "(of_char c :: nat) < 256" by (rule nat_of_char_less_256)
  then have "unat (of_nat (of_char c) :: 8 word) = of_char c" by (simp add: unat_of_nat)
  then show ?thesis by simp
qed

lemma plain_nacl_contract: "nacl_contract plain_nacl"
  unfolding nacl_contract_def plain_nacl_def
  using byte_char_byte char_byte_char by (auto simp: o_def map_idI simp del: of_char_of)

lemma encrypt_returns:
  assumes "nacl_contract L"
      and "length sharedSecret = secretbox_keyLength"
      and "length rnd = secretbox_nonceLength"
      and "messageBytes L msg = Some mb"
  shows "\<exists>c. secretbox_open L c rnd sharedSecret = Some (Some mb) \<and>
           encrypt L rnd msg sharedSecret =
             Some \<lparr>nonce = encodeBase64 L rnd, ciphertext = encodeBase64 L c\<rparr>"
proof -
  from assms(1,2,3) obtain c where
    box: "secretbox L mb rnd sharedSecret = Some c" and
    opn: "secretbox_open L c rnd sharedSecret = Some (Some mb)"
    unfolding nacl_contract_def by blast
  have "encrypt L rnd msg sharedSecret =
      Some \<lparr>nonce = encodeBase64 L rnd, ciphertext = encodeBase64 L c\<rparr>"
    using assms(4) box by (simp add: encrypt_def)
  then show ?thesis using opn by blast
qed

lemma decrypt_envelope:
  assumes "nacl_contract L"
      and "secretbox_open L c rnd sharedSecret = Some (Some mb)"
  shows "decrypt L \<lparr>nonce = encodeBase64 L rnd, ciphertext = encodeBase64 L c\<rparr> sharedSecret =
           Some (Some mb)"
proof -
  from assms(1) have "decodeBase64 L (encodeBase64 L b) = Some b" for b
    by (simp add: nacl_contract_def)
  then show ?thesis using assms(2) by (simp add: decrypt_def)
qed

lemma decryptToString_envelope:
  assumes "nacl_contract L"
      and "decodeUTF8 L s = Some mb"
      and "decrypt L enc sharedSecret = Some (Some mb)"
  shows "decryptToString L enc sharedSecret = Some (Some s)"
proof -
  from assms(1,2) have "encodeUTF8 L mb = Some s"
    by (simp add: nacl_contract_def)
  then show ?thesis using assms(3) by (simp add: decryptToString_def)
qed



section \<open>The pairing code\<close>

lemma all_fields_truthy_code:
  "parsed \<noteq> JNull \<Longrightarrow>
   (\<not> (\<not> js_truthy (js_get parsed ''sessionId'') \<or> \<not> js_truthy (js_get parsed ''publicKey'') \<or>
        \<not> js_truthy (js_get parsed ''timestamp''))) = all_fields_truthy parsed"
  by (cases parsed) (auto simp: all_fields_truthy_def)

text \<open>
  Claim C9, as amended. \<open>parsePairingCode(code)\<close> returns the parsed value exactly when
  \<open>code\<close> is valid JSON for an object whose fields \<open>sessionId\<close>, \<open>publicKey\<close> and
  \<open>timestamp\<close> are all present and truthy (a non-empty string, a non-zero number, \<open>true\<close>,
  an array or an object), and \<open>null\<close> otherwise. In particular, where \<open>JSON.parse\<close> reads
  back what \<open>JSON.stringify\<close> wrote, \<open>parsePairingCode(encodePairingCode(c))\<close> is \<open>c\<close> when
  \<open>c\<close> has a non-empty \<open>sessionId\<close>, a non-empty \<open>publicKey\<close> and a non-zero \<open>timestamp\<close>,
  and \<open>null\<close> for every other pairing code.
\<close>

theorem parsePairingCode_truthy_fields:
  "parsePairingCode J code =
     (case JSON_parse J code of
        None \<Rightarrow> None
      | Some parsed \<Rightarrow> if all_fields_truthy parsed then Some parsed else None) \<and>
   (JSON_parse J (JSON_stringify J (pairing_json c)) = Some (pairing_json c) \<longrightarrow>
      parsePairingCode J (encodePairingCode J c) =
        (if pc_sessionId c \<noteq> [] \<and> pc_publicKey c \<noteq> [] \<and> pc_timestamp c \<noteq> 0
         then Some (pairing_json c) else None))"
proof -
  have a: "parsePairingCode J code =
     (case JSON_parse J code of
        None \<Rightarrow> None
      | Some parsed \<Rightarrow> if all_fields_truthy parsed then Some parsed else None)" for code
  proof (cases "JSON_parse J code")
    case None
    then show ?thesis by (simp add: parsePairingCode_def)
  next
    case (Some parsed)
    show ?thesis
    proof (cases "parsed = JNull")
      case True
      then show ?thesis using Some by (simp add: parsePairingCode_def all_fields_truthy_def)
    next
      case False
      then show ?thesis
        using Some all_fields_truthy_code[OF False] by (auto simp: parsePairingCode_def)
    qed
  qed
  have b: "all_fields_truthy (pairing_json c) =
     (pc_sessionId c \<noteq> [] \<and> pc_publicKey c \<noteq> [] \<and> pc_timestamp c \<noteq> 0)"
    by (simp add: all_fields_truthy_def pairing_json_def)
  show ?thesis using a b by (simp add: encodePairingCode_def)
qed

theorem parsePairingCode_truthy_fields_witness:
  "JSON_parse table_json (JSON_stringify table_json (pairing_json demo_pairing)) =
     Some (pairing_json demo_pairing) \<and>
   parsePairingCode table_json (encodePairingCode table_json demo_pairing) =
     Some (pairing_json demo_pairing)"
proof -
  have rt: "JSON_parse table_json (JSON_stringify table_json (pairing_json demo_pairing)) =
     Some (pairing_json demo_pairing)"
    by (simp add: table_json_def)
  show ?thesis
    using rt parsePairingCode_truthy_fields[of table_json "[]" demo_pairing]
    by (simp add: demo_pairing_def)
qed

text \<open>
  Claim C9 as stated fails: a pairing code with the empty session id has all three fields,
  its encoding is valid JSON carrying all three, and \<open>parsePairingCode\<close> returns \<open>null\<close> on
  it.
\<close>

theorem parsePairingCode_empty_sessionId_rejected:
  "JSON_parse table_json (encodePairingCode table_json unnamed_pairing) =
     Some (pairing_json unnamed_pairing) \<and>
   carries_all_fields (pairing_json unnamed_pairing) \<and>
   parsePairingCode table_json (encodePairingCode table_json unnamed_pairing) = None"
  by (simp add: table_json_def encodePairingCode_def parsePairingCode_def carries_all_fields_def
      pairing_json_def unnamed_pairing_def demo_pairing_def unnamed_pairing_text_def demo_pairing_text_def)

section \<open>Encrypted output fan-out\<close>

lemma encrypt_each_outputs:
  assumes "nacl_contract L"
      and "\<forall>e \<in> set secrets. length (snd e) = secretbox_keyLength"
      and "\<forall>k. length (rand k) = secretbox_nonceLength"
      and "decodeUTF8 L (JSON_stringify J (event_json event)) = Some tb"
  shows "\<exists>out. encrypt_each L J rand k event secrets = (out, True) \<and>
           list_all2 (output_for L J event) secrets (encrypted_outputs out) \<and>
           length (encrypted_outputs out) = length out"
  using assms(2)
proof (induction secrets arbitrary: k)
  case Nil
  then show ?case by simp
next
  case (Cons e secrets)
  obtain vid secret where e: "e = (vid, secret)" by (cases e) auto
  have len: "length secret = secretbox_keyLength" using Cons.prems e by simp
  have mb: "messageBytes L (Str (JSON_stringify J (event_json event))) = Some tb"
    using assms(4) by (simp add: messageBytes_def)
  have nl: "length (rand k) = secretbox_nonceLength" using assms(3) by simp
  from encrypt_returns[OF assms(1) len nl mb] obtain c where
    opn: "secretbox_open L c (rand k) secret = Some (Some tb)" and
    enc': "encrypt L (rand k) (Str (JSON_stringify J (event_json event))) secret =
             Some \<lparr>nonce = encodeBase64 L (rand k), ciphertext = encodeBase64 L c\<rparr>"
    by blast
  define enc where "enc = \<lparr>nonce = encodeBase64 L (rand k), ciphertext = encodeBase64 L c\<rparr>"
  have enc: "encrypt L (rand k) (Str (JSON_stringify J (event_json event))) secret = Some enc"
    using enc' by (simp add: enc_def)
  have "decrypt L enc secret = Some (Some tb)"
    unfolding enc_def using assms(1) opn by (rule decrypt_envelope)
  then have dec: "decryptToString L enc secret = Some (Some (JSON_stringify J (event_json event)))"
    using assms(1) assms(4) by (rule decryptToString_envelope[rotated 2])
  from Cons.IH[of "Suc k"] Cons.prems obtain out where
    out: "encrypt_each L J rand (Suc k) event secrets = (out, True)"
      "list_all2 (output_for L J event) secrets (encrypted_outputs out)"
      "length (encrypted_outputs out) = length out"
    by auto
  have head: "output_for L J event (vid, secret)
     \<lparr>viewerId = vid, envelope = enc, eo_seq = seq event, eo_timestamp = timestamp event\<rparr>"
    using dec by (simp add: output_for_def)
  show ?case
    using e enc head out by simp
qed

text \<open>
  Claim C2. Let the library meet its contract, every cached shared secret be 32 bytes,
  every nonce drawn be 24 bytes and the JSON text of the event be encodable. When the
  connected producer sends an output event, the send completes, caches the event, and
  the \<open>encrypted-output\<close> messages it emits correspond one to one, in order, to the entries
  of the shared-secret map: the message for entry \<open>(viewerId, secret)\<close> names that viewer,
  repeats the event's \<open>seq\<close> and \<open>timestamp\<close>, and its envelope decrypts under that secret
  to the JSON text of this same event. The relay, receiving any of these messages from a
  \<open>cli\<close> connection, sends the envelope with \<open>seq\<close> and \<open>timestamp\<close> to the room named by
  \<open>viewerId\<close> (that viewer's socket) and to nobody else, and leaves the session unchanged;
  the handler has no access to any key.
\<close>

theorem encrypted_output_fanout:
  assumes "nacl_contract L"
      and "connected c"
      and "\<forall>e \<in> set (sharedSecrets c). length (snd e) = secretbox_keyLength"
      and "\<forall>k. length (rand k) = secretbox_nonceLength"
      and "decodeUTF8 L (JSON_stringify J (event_json event)) = Some tb"
      and "is_cli p"
  shows "\<exists>out. sendEncryptedOutput L J rand event c = (c\<lparr>lastOutputEvent := Some event\<rparr>, out, True) \<and>
           list_all2 (output_for L J event) (sharedSecrets c) (encrypted_outputs out) \<and>
           (\<forall>m \<in> set (encrypted_outputs out).
              on_encrypted_output p m s =
                (s, [(ToRoom (viewerId m),
                      EncryptedOutputP (envelope m) (eo_seq m) (eo_timestamp m))]))"
proof -
  from encrypt_each_outputs[OF assms(1) assms(3) assms(4) assms(5), of 0]
  obtain out where
    each: "encrypt_each L J rand 0 event (sharedSecrets c) = (out, True)" and
    owed: "list_all2 (output_for L J event) (sharedSecrets c) (encrypted_outputs out)"
    by auto
  have relay: "on_encrypted_output p m s =
      (s, [(ToRoom (viewerId m), EncryptedOutputP (envelope m) (eo_seq m) (eo_timestamp m))])" for m
    using assms(6) by (simp add: on_encrypted_output_def)
  have hist: "encrypted_outputs (out @ [EmitOutputHistory enc sq ts]) = encrypted_outputs out"
    for enc sq ts
    by (induction out rule: encrypted_outputs.induct) auto
  show ?thesis
  proof (cases "sharedSecrets c")
    case Nil
    then show ?thesis
      using assms(2) each by (simp add: sendEncryptedOutput_def relay)
  next
    case (Cons e rest)
    obtain vid secret where e: "e = (vid, secret)" by (cases e) auto
    have len: "length secret = secretbox_keyLength" using assms(3) Cons e by simp
    have mb: "messageBytes L (Str (JSON_stringify J (event_json event))) = Some tb"
      using assms(5) by (simp add: messageBytes_def)
    have nl: "length (rand (length (sharedSecrets c))) = secretbox_nonceLength"
      using assms(4) by simp
    from encrypt_returns[OF assms(1) len nl mb] obtain enc where
      enc: "encrypt L (rand (length (sharedSecrets c)))
              (Str (JSON_stringify J (event_json event))) secret = Some enc"
      by blast
    have "sendEncryptedOutput L J rand event c =
      (c\<lparr>lastOutputEvent := Some event\<rparr>,
       out @ [EmitOutputHistory enc (seq event) (timestamp event)], True)"
      using assms(2) each Cons e enc by (simp add: sendEncryptedOutput_def)
    then show ?thesis using owed hist relay by simp
  qed
qed

lemma hello_text_bytes:
  "decodeUTF8 plain_nacl (JSON_stringify hello_json (event_json hello_event)) =
     Some (map (\<lambda>c. of_nat (of_char c)) hello_event_text)"
  by (simp add: plain_nacl_def hello_json_def)

theorem encrypted_output_fanout_witness:
  "\<exists>out. sendEncryptedOutput plain_nacl hello_json zero_nonces hello_event paired_client =
            (paired_client\<lparr>lastOutputEvent := Some hello_event\<rparr>, out, True) \<and>
          list_all2 (output_for plain_nacl hello_json hello_event)
            [(''A'', replicate 32 1), (''B'', replicate 32 2)] (encrypted_outputs out) \<and>
          (\<forall>m \<in> set (encrypted_outputs out).
              on_encrypted_output producer_P m (new_session ''demo'' None 0) =
                (new_session ''demo'' None 0,
                 [(ToRoom (viewerId m),
                   EncryptedOutputP (envelope m) (eo_seq m) (eo_timestamp m))]))"
proof -
  have c: "connected paired_client" by (simp add: paired_client_def)
  have k: "\<forall>e \<in> set (sharedSecrets paired_client). length (snd e) = secretbox_keyLength"
    by (simp add: paired_client_def secretbox_keyLength_def)
  have n: "\<forall>k. length (zero_nonces k) = secretbox_nonceLength"
    by (simp add: zero_nonces_def secretbox_nonceLength_def)
  have p: "is_cli producer_P" by (simp add: is_cli_def producer_P_def)
  show ?thesis
    using encrypted_output_fanout[OF plain_nacl_contract c k n hello_text_bytes p,
        of "new_session ''demo'' None 0"]
    by (simp add: paired_client_def)
qed

section \<open>The control lock\<close>

lemma two_viewers_and_cli_value:
  "two_viewers_and_cli =
     \<lparr>sessions = [(''demo'', 0)],
      objs = [\<lparr>sess_id = ''demo'', userId = None, cliSocketId = Some ''P'',
               cliPublicKey = Some ''cHVibGlj'', daemonSocketId = None,
               viewers = [(''A'', \<lparr>socketId = ''A'', publicKey = [], nickname = None\<rparr>),
                          (''B'', \<lparr>socketId = ''B'', publicKey = [], nickname = None\<rparr>)],
               lastOutput = None, outputHistory = [], encryptedHistory = [], encrypted = True,
               controlLock = Some lock_of_A, createdAt = 0\<rparr>],
      conns = [(''P'', \<lparr>sock = ''P'', sessionId = ''demo'', clientType = Some ''cli'', session = 0\<rparr>),
               (''A'', viewer_A), (''B'', viewer_B)],
      cliDaemons = [], userSessions = [], pendingCommands = [], commandTimers = [],
      reapTimers = []\<rparr>"
  by (simp add: two_viewers_and_cli_def viewer_A_def viewer_B_def lock_of_A_def relay_eval)




text \<open>
  Claim C4, as amended. Take a \<open>request-control\<close> at time \<open>now\<close> from a connection that is
  not a \<open>cli\<close> and is recorded as viewer \<open>v\<close> of the session. The request is granted if and
  only if there is no lock, or the lock's \<open>lastInputAt\<close> is 30 s or more in the past
  (\<open>now - lastInputAt \<ge> 30 s\<close>), or the requester already holds it. When granted, the lock
  becomes \<open>{holderId: requester, holderNickname, acquiredAt: now, lastInputAt: now}\<close> and
  \<open>control-status{locked: true, holderId, holderNickname, acquiredAt}\<close> goes to the session's
  room. Otherwise the session is unchanged and the single message sent is
  \<open>control-denied{reason: "locked", holderId, holderNickname}\<close> to the requester.
\<close>

theorem request_control_granted_iff:
  assumes "\<not> is_cli c" and "map_of (viewers s) (sock c) = Some v"
  shows "on_request_control c now s =
     (let granted =
            (s\<lparr>controlLock := Some \<lparr>holderId = sock c, holderNickname = nickname v,
                                     acquiredAt = now, lastInputAt = now\<rparr>\<rparr>,
             [(ToRoom (room (sessionId c)),
               ControlStatus True (Some (sock c)) (nickname v) (Some now))])
      in case controlLock s of
           None \<Rightarrow> granted
         | Some l \<Rightarrow>
             if 30000 \<le> now - lastInputAt l \<or> holderId l = sock c then granted
             else (s, [(ToSocket (sock c),
                        ControlDenied ''locked'' (holderId l) (holderNickname l))]))"
  using assms
  by (cases "controlLock s")
     (auto simp: on_request_control_def grant_control_def broadcastControlStatus_def
        CONTROL_LOCK_TIMEOUT_def Let_def)

theorem request_control_granted_iff_witness:
  "on_request_control viewer_B 29999 (hd (objs two_viewers_and_cli)) =
     (hd (objs two_viewers_and_cli), [(ToSocket ''B'', ControlDenied ''locked'' ''A'' None)]) \<and>
   on_request_control viewer_B 30001 (hd (objs two_viewers_and_cli)) =
     ((hd (objs two_viewers_and_cli))
        \<lparr>controlLock := Some \<lparr>holderId = ''B'', holderNickname = None, acquiredAt = 30001,
                               lastInputAt = 30001\<rparr>\<rparr>,
      [(ToRoom ''session:demo'', ControlStatus True (Some ''B'') None (Some 30001))])"
proof -
  have b: "\<not> is_cli viewer_B"
    by (simp add: is_cli_def viewer_B_def)
  have v: "map_of (viewers (hd (objs two_viewers_and_cli))) (sock viewer_B) =
     Some \<lparr>socketId = ''B'', publicKey = [], nickname = None\<rparr>"
    by (simp add: two_viewers_and_cli_value viewer_B_def)
  have lock: "controlLock (hd (objs two_viewers_and_cli)) = Some lock_of_A"
    by (simp add: two_viewers_and_cli_value)
  show ?thesis
    using lock request_control_granted_iff[OF b v, of 29999]
      request_control_granted_iff[OF b v, of 30001]
    by (simp add: room_def viewer_B_def lock_of_A_def)
qed

text \<open>
  Claim C4 as stated fails on the boundary: with the lock held by \<open>A\<close> and its
  \<open>lastInputAt\<close> exactly 30 s old (not older than 30 s), a request of \<open>B\<close> is granted.
\<close>

theorem request_control_granted_at_30s:
  "controlLock (hd (objs two_viewers_and_cli)) = Some lock_of_A \<and>
   relay_step id (RequestControl ''B'' 30000) two_viewers_and_cli =
     (two_viewers_and_cli
        \<lparr>objs := [(hd (objs two_viewers_and_cli))
           \<lparr>controlLock := Some \<lparr>holderId = ''B'', holderNickname = None, acquiredAt = 30000,
                                  lastInputAt = 30000\<rparr>\<rparr>]\<rparr>,
      [(ToRoom ''session:demo'', ControlStatus True (Some ''B'') None (Some 30000))])"
  by (simp add: two_viewers_and_cli_value viewer_B_def lock_of_A_def with_session_def
      on_request_control_def is_cli_def grant_control_def broadcastControlStatus_def room_def
      CONTROL_LOCK_TIMEOUT_def)

section \<open>Disconnect of a superseded producer\<close>

text \<open>
  Claim C10. When a \<open>cli\<close> connection disconnects and the session's producer binding is
  not this socket (a newer \<open>cli\<close> connection replaced it, or nothing is bound), the
  handler takes the viewer branch: the lock is released and the new status broadcast if
  this socket held it, \<open>viewer-left{viewerId: this socket}\<close> goes to the bound producer when
  there is one, and this socket's id is removed from the viewers map. No \<open>cli-status\<close> is
  sent and \<open>cliSocketId\<close> and \<open>cliPublicKey\<close> keep their values.
\<close>

theorem superseded_cli_disconnect_is_viewer_branch:
  assumes "is_cli c" and "cliSocketId s \<noteq> Some (sock c)"
  shows "on_disconnect c s =
     (s\<lparr>controlLock :=
          (if (case controlLock s of Some l \<Rightarrow> holderId l = sock c | None \<Rightarrow> False)
           then None else controlLock s),
        viewers := AList.delete (sock c) (viewers s)\<rparr>,
      (if (case controlLock s of Some l \<Rightarrow> holderId l = sock c | None \<Rightarrow> False)
       then [(ToRoom (room (sessionId c)), ControlStatus False None None None)] else []) @
      (if truthy (cliSocketId s) then [(ToRoom (the (cliSocketId s)), ViewerLeft (sock c))]
       else []))"
  using assms
  by (auto simp: on_disconnect_def broadcastControlStatus_def Let_def)

theorem superseded_cli_disconnect_is_viewer_branch_witness:
  "map_of (conns replaced_cli) ''P1'' = Some old_cli \<and>
   cliSocketId (hd (objs replaced_cli)) = Some ''P2'' \<and>
   on_disconnect old_cli (hd (objs replaced_cli)) =
     (hd (objs replaced_cli), [(ToRoom ''P2'', ViewerLeft ''P1'')]) \<and>
   snd (relay_step id (Disconnect ''P1'' 3) replaced_cli) = [(ToRoom ''P2'', ViewerLeft ''P1'')]"
proof -
  have c: "is_cli old_cli" by (simp add: is_cli_def old_cli_def)
  have v: "hd (objs replaced_cli) =
     \<lparr>sess_id = ''demo'', userId = None, cliSocketId = Some ''P2'',
      cliPublicKey = Some ''cHVibGlj'', daemonSocketId = None,
      viewers = [(''V'', \<lparr>socketId = ''V'', publicKey = [], nickname = None\<rparr>)],
      lastOutput = None, outputHistory = [], encryptedHistory = [], encrypted = True,
      controlLock = None, createdAt = 0\<rparr>"
    by (simp add: replaced_cli_def relay_eval)
  have p: "cliSocketId (hd (objs replaced_cli)) \<noteq> Some (sock old_cli)"
    by (simp add: v old_cli_def)
  have m: "map_of (conns replaced_cli) ''P1'' = Some old_cli"
    by (simp add: replaced_cli_def old_cli_def relay_eval)
  have g: "snd (relay_step id (Disconnect ''P1'' 3) replaced_cli) = [(ToRoom ''P2'', ViewerLeft ''P1'')]"
    by (simp add: replaced_cli_def relay_eval)
  show ?thesis
    using m g superseded_cli_disconnect_is_viewer_branch[OF c p]
    by (simp add: v old_cli_def truthy_def)
qed

section \<open>The history rings\<close>

lemma push_capped_length: "length h \<le> 100 \<Longrightarrow> length (push_capped x h) \<le> 100"
  by (simp add: push_capped_def Let_def)

lemma history_ok_fields:
  "outputHistory s' = outputHistory s \<Longrightarrow> encryptedHistory s' = encryptedHistory s \<Longrightarrow>
   history_ok s \<Longrightarrow> history_ok s'"
  by (simp add: history_ok_def)

lemma on_request_control_ok: "history_ok s \<Longrightarrow> history_ok (fst (on_request_control c now s))"
  by (auto simp: on_request_control_def grant_control_def history_ok_def Let_def
      split: option.splits)

lemma on_release_control_ok: "history_ok s \<Longrightarrow> history_ok (fst (on_release_control c s))"
  by (auto simp: on_release_control_def history_ok_def Let_def split: option.splits)

lemma on_output_ok: "history_ok s \<Longrightarrow> history_ok (fst (on_output c ev s))"
  by (auto simp: on_output_def history_ok_def push_capped_length)

lemma on_encrypted_output_ok: "history_ok s \<Longrightarrow> history_ok (fst (on_encrypted_output c d s))"
  by (auto simp: on_encrypted_output_def)

lemma on_output_history_ok: "history_ok s \<Longrightarrow> history_ok (fst (on_output_history c enc sq ts s))"
  by (auto simp: on_output_history_def history_ok_def push_capped_length)

lemma control_gate_ok: "history_ok s \<Longrightarrow> control_gate c now s = Passed s1 out \<Longrightarrow> history_ok s1"
  by (auto simp: control_gate_def history_ok_def Let_def split: option.splits if_splits)

lemma touch_lock_ok: "history_ok s \<Longrightarrow> history_ok (touch_lock c now s)"
  by (auto simp: touch_lock_def history_ok_def split: option.splits)

lemma on_input_ok: "history_ok s \<Longrightarrow> history_ok (fst (on_input c d now s))"
  by (auto simp: on_input_def Let_def touch_lock_ok split: gate.splits dest: control_gate_ok)

lemma on_encrypted_input_ok: "history_ok s \<Longrightarrow> history_ok (fst (on_encrypted_input c enc now s))"
  by (auto simp: on_encrypted_input_def Let_def touch_lock_ok split: gate.splits
      dest: control_gate_ok)

lemma on_get_history_ok: "history_ok s \<Longrightarrow> history_ok (fst (on_get_history c s))"
  by (auto simp: on_get_history_def)

lemma on_disconnect_ok: "history_ok s \<Longrightarrow> history_ok (fst (on_disconnect c s))"
  by (auto simp: on_disconnect_def history_ok_def Let_def split: option.splits)

lemma bind_cli_ok: "history_ok s \<Longrightarrow> history_ok (fst (bind_cli c pk s))"
  by (auto simp: bind_cli_def history_ok_def Let_def)

lemma bind_viewer_ok: "history_ok s \<Longrightarrow> history_ok (fst (bind_viewer c pk nick s))"
  by (auto simp: bind_viewer_def history_ok_def Let_def)

lemma new_session_ok: "history_ok (new_session sid uid now)"
  by (simp add: new_session_def history_ok_def)

lemma bounded_update:
  "histories_bounded r \<Longrightarrow> history_ok s \<Longrightarrow> objs r' = (objs r)[a := s] \<Longrightarrow> histories_bounded r'"
  unfolding histories_bounded_def using set_update_subset_insert[of "objs r" a s] by auto

lemma bounded_append:
  "histories_bounded r \<Longrightarrow> history_ok s \<Longrightarrow> objs r' = objs r @ [s] \<Longrightarrow> histories_bounded r'"
  unfolding histories_bounded_def by auto

lemma bounded_same: "histories_bounded r \<Longrightarrow> objs r' = objs r \<Longrightarrow> histories_bounded r'"
  unfolding histories_bounded_def by auto

lemma bounded_nth: "histories_bounded r \<Longrightarrow> a < length (objs r) \<Longrightarrow> history_ok (objs r ! a)"
  unfolding histories_bounded_def by auto

lemma with_session_ok:
  assumes "\<And>c s. history_ok s \<Longrightarrow> history_ok (fst (h c s))" and "histories_bounded r"
  shows "histories_bounded (fst (with_session sk h r))"
proof (cases "map_of (conns r) sk")
  case None
  then show ?thesis using assms(2) by (simp add: with_session_def)
next
  case (Some c)
  show ?thesis
  proof (cases "session c < length (objs r)")
    case True
    have "history_ok (fst (h c (objs r ! session c)))"
      using assms bounded_nth True by blast
    then show ?thesis
      using Some True assms(2)
      by (auto simp: with_session_def split_def Let_def intro: bounded_update)
  next
    case False
    then show ?thesis using Some assms(2) by (simp add: with_session_def)
  qed
qed

lemma on_connection_ok:
  assumes "histories_bounded r"
  shows "histories_bounded (fst (on_connection H sk q now r))"
proof -
  define sid where "sid = the (q_sessionId q)"
  define cli where "cli = (q_clientType q = Some ''cli'')"
  define uid where "uid = derive_user H (q_userSecret q)"
  define r1 where "r1 = (case map_of (sessions r) sid of
                    Some a \<Rightarrow> r
                  | None \<Rightarrow>
                      r\<lparr>objs := objs r @ [new_session sid (if cli then uid else None) now],
                        sessions := AList.update sid (length (objs r)) (sessions r),
                        userSessions :=
                          (if cli \<and> truthy uid
                           then add_user_session (the uid) sid (userSessions r)
                           else userSessions r)\<rparr>)"
  have r1: "histories_bounded r1"
    unfolding r1_def using assms
    by (auto split: option.splits intro: bounded_append[OF _ new_session_ok])
  define a where "a = the (map_of (sessions r1) sid)"
  define c where "c = \<lparr>sock = sk, sessionId = sid, clientType = q_clientType q, session = a\<rparr>"
  define res where "res = (if cli then bind_cli c (q_publicKey q) (objs r1 ! a)
                     else bind_viewer c (q_publicKey q) (q_nickname q) (objs r1 ! a))"
  have res: "a < length (objs r1) \<Longrightarrow> history_ok (fst res)"
    unfolding res_def using bounded_nth[OF r1] bind_cli_ok bind_viewer_ok by auto
  have fin: "a < length (objs r1) \<Longrightarrow>
     histories_bounded (r1\<lparr>objs := (objs r1)[a := fst res], conns := AList.update sk c (conns r1)\<rparr>)"
    using r1 res by (auto intro: bounded_update)
  have eq: "fst (on_connection H sk q now r) =
     (if socket_connected r sk then r
      else if q_clientType q = Some ''cli-daemon'' then
        r\<lparr>cliDaemons :=
             AList.update sk
               \<lparr>d_socketId = sk, d_userId = derive_user H (q_userSecret q),
                activeSessions = [], connectedAt = now\<rparr> (cliDaemons r)\<rparr>
      else if \<not> truthy (q_sessionId q) then r
      else if a < length (objs r1) then
        r1\<lparr>objs := (objs r1)[a := fst res], conns := AList.update sk c (conns r1)\<rparr>
      else r)"
    unfolding on_connection_def Let_def sid_def[symmetric] cli_def[symmetric] uid_def[symmetric]
      r1_def[symmetric] a_def[symmetric] c_def[symmetric] res_def[symmetric]
    by (simp add: split_def)
  show ?thesis
    unfolding eq using assms fin by (auto intro: bounded_same)
qed


lemma on_socket_disconnect_ok:
  assumes "histories_bounded r"
  shows "histories_bounded (fst (on_socket_disconnect sk now r))"
proof (cases "map_of (conns r) sk")
  case None
  then show ?thesis using assms by (simp add: on_socket_disconnect_def)
next
  case (Some c)
  have "histories_bounded (fst (with_session sk on_disconnect r))"
    using on_disconnect_ok assms by (rule with_session_ok)
  then show ?thesis
    using Some by (auto simp: on_socket_disconnect_def split_def Let_def intro: bounded_same)
qed

lemma reap_objs: "objs (reap sid r) = objs r"
  by (simp add: reap_def split: option.splits)

lemma on_reap_timer_ok:
  "histories_bounded r \<Longrightarrow> histories_bounded (fst (on_reap_timer sid due now r))"
  by (auto simp: on_reap_timer_def reap_objs intro: bounded_same)

lemma on_cli_response_ok:
  "histories_bounded r \<Longrightarrow> histories_bounded (fst (on_cli_response sk response r))"
  by (auto simp: on_cli_response_def Let_def split: option.splits intro: bounded_same)

lemma unbind_daemon_ok:
  assumes "histories_bounded r"
  shows "histories_bounded (fst (unbind_daemon sk sid r))"
proof (cases "map_of (sessions r) sid")
  case None
  then show ?thesis using assms by (simp add: unbind_daemon_def)
next
  case (Some a)
  show ?thesis
  proof (cases "a < length (objs r) \<and> daemonSocketId (objs r ! a) = Some sk")
    case True
    then have "history_ok (objs r ! a)" using assms bounded_nth by blast
    then have "history_ok ((objs r ! a)\<lparr>daemonSocketId := None, cliPublicKey := None\<rparr>)"
      by (simp add: history_ok_def)
    then show ?thesis
      using Some True assms by (auto simp: unbind_daemon_def intro: bounded_update)
  next
    case False
    then show ?thesis using Some assms by (auto simp: unbind_daemon_def)
  qed
qed

lemma unbind_all_ok:
  "histories_bounded r \<Longrightarrow> histories_bounded (fst (unbind_all sk sids r))"
proof (induction sids arbitrary: r)
  case Nil
  then show ?case by simp
next
  case (Cons sid sids)
  have "histories_bounded (fst (unbind_daemon sk sid r))"
    using Cons.prems by (rule unbind_daemon_ok)
  then have "histories_bounded (fst (unbind_all sk sids (fst (unbind_daemon sk sid r))))"
    by (rule Cons.IH)
  then show ?case by (simp add: split_def Let_def)
qed

lemma on_daemon_disconnect_ok:
  assumes "histories_bounded r"
  shows "histories_bounded (fst (on_daemon_disconnect sk r))"
proof (cases "map_of (cliDaemons r) sk")
  case None
  then show ?thesis using assms by (simp add: on_daemon_disconnect_def)
next
  case (Some daemon)
  have "histories_bounded (fst (unbind_all sk (activeSessions daemon) r))"
    using assms by (rule unbind_all_ok)
  then show ?thesis
    using Some by (auto simp: on_daemon_disconnect_def split_def Let_def intro: bounded_same)
qed

lemma on_session_detached_ok:
  assumes "histories_bounded r"
  shows "histories_bounded (fst (on_session_detached sk sid r))"
proof (cases "map_of (cliDaemons r) sk")
  case None
  then show ?thesis using assms by (simp add: on_session_detached_def)
next
  case (Some daemon)
  have "histories_bounded (r\<lparr>cliDaemons :=
           AList.update sk (daemon\<lparr>activeSessions := removeAll sid (activeSessions daemon)\<rparr>)
             (cliDaemons r)\<rparr>)"
    using assms by (auto intro: bounded_same)
  then show ?thesis
    using Some by (auto simp: on_session_detached_def intro: unbind_daemon_ok)
qed

lemma on_session_attached_objs:
  assumes "map_of (cliDaemons r) sk = Some daemon"
  shows "objs (fst (on_session_attached sk sid pk enc now r)) =
     (case map_of (sessions r) sid of
        None \<Rightarrow>
          objs r @
            [\<lparr>sess_id = sid, userId = d_userId daemon, cliSocketId = None,
              cliPublicKey = Some pk, daemonSocketId = Some sk, viewers = [],
              lastOutput = None, outputHistory = [], encryptedHistory = [],
              encrypted = enc, controlLock = None, createdAt = now\<rparr>]
      | Some a \<Rightarrow>
          if a < length (objs r)
          then (objs r)[a := (objs r ! a)
                  \<lparr>daemonSocketId := Some sk, cliPublicKey := Some pk, encrypted := enc\<rparr>]
          else objs r)"
  using assms by (simp add: on_session_attached_def Let_def split: option.splits)

lemma on_session_attached_ok:
  assumes "histories_bounded r"
  shows "histories_bounded (fst (on_session_attached sk sid pk enc now r))"
proof (cases "map_of (cliDaemons r) sk")
  case None
  then show ?thesis using assms by (simp add: on_session_attached_def)
next
  case (Some daemon)
  note objs = on_session_attached_objs[OF Some, of sid pk enc now]
  show ?thesis
  proof (cases "map_of (sessions r) sid")
    case None
    have "history_ok
       \<lparr>sess_id = sid, userId = d_userId daemon, cliSocketId = None,
        cliPublicKey = Some pk, daemonSocketId = Some sk, viewers = [],
        lastOutput = None, outputHistory = [], encryptedHistory = [],
        encrypted = enc, controlLock = None, createdAt = now\<rparr>"
      by (simp add: history_ok_def)
    then show ?thesis
      using assms objs None by (auto intro: bounded_append)
  next
    case (Some a)
    show ?thesis
    proof (cases "a < length (objs r)")
      case True
      then have "history_ok (objs r ! a)" using assms bounded_nth by blast
      then have "history_ok ((objs r ! a)
          \<lparr>daemonSocketId := Some sk, cliPublicKey := Some pk, encrypted := enc\<rparr>)"
        by (simp add: history_ok_def)
      then show ?thesis
        using assms objs Some True by (auto intro: bounded_update)
    next
      case False
      then show ?thesis using assms objs Some by (auto intro: bounded_same)
    qed
  qed
qed

lemma on_post_daemon_command_ok:
  "histories_bounded r \<Longrightarrow> histories_bounded (fst (on_post_daemon_command req cmd ps cid now r))"
  by (auto simp: on_post_daemon_command_def split: list.splits intro: bounded_same)

lemma on_command_timeout_ok:
  "histories_bounded r \<Longrightarrow> histories_bounded (fst (on_command_timeout req now r))"
  by (auto simp: on_command_timeout_def split: list.splits intro: bounded_same)

lemma relay_step_ok:
  assumes "histories_bounded r"
  shows "histories_bounded (fst (relay_step H e r))"
proof (cases e)
  case (Connection sk q now)
  then show ?thesis using assms by (simp add: on_connection_ok)
next
  case (RequestControl sk now)
  then show ?thesis using assms by (simp add: with_session_ok on_request_control_ok)
next
  case (ReleaseControl sk)
  then show ?thesis using assms by (simp add: with_session_ok on_release_control_ok)
next
  case (OutputMsg sk ev)
  then show ?thesis using assms by (simp add: with_session_ok on_output_ok)
next
  case (EncryptedOutputMsg sk d)
  then show ?thesis
    using assms
    by (simp add: with_session_ok on_encrypted_output_ok on_daemon_encrypted_output_def)
next
  case (OutputHistoryMsg sk enc sq ts)
  then show ?thesis using assms by (simp add: with_session_ok on_output_history_ok)
next
  case (InputMsg sk d now)
  then show ?thesis using assms by (simp add: with_session_ok on_input_ok)
next
  case (EncryptedInputMsg sk enc now)
  then show ?thesis using assms by (simp add: with_session_ok on_encrypted_input_ok)
next
  case (GetHistory sk)
  then show ?thesis using assms by (simp add: with_session_ok on_get_history_ok)
next
  case (Disconnect sk now)
  then show ?thesis
    using assms by (simp add: on_daemon_disconnect_ok on_socket_disconnect_ok)
next
  case (CliCommandMsg sk msg)
  then show ?thesis using assms by (simp add: on_cli_command_def)
next
  case (CliResponseMsg sk response)
  then show ?thesis using assms by (simp add: on_cli_response_ok)
next
  case (SessionAttached sk sid pk enc now)
  then show ?thesis using assms by (simp add: on_session_attached_ok)
next
  case (SessionDetached sk sid)
  then show ?thesis using assms by (simp add: on_session_detached_ok)
next
  case (ActiveSessions sk)
  then show ?thesis using assms by simp
next
  case (PostDaemonCommand req cmd ps cid now)
  then show ?thesis using assms by (simp add: on_post_daemon_command_ok)
next
  case (CommandTimeout req now)
  then show ?thesis using assms by (simp add: on_command_timeout_ok)
next
  case (ReapTimer sid due now)
  then show ?thesis using assms by (simp add: on_reap_timer_ok)
qed

lemma relay_run_ok: "histories_bounded r \<Longrightarrow> histories_bounded (relay_run H es r)"
  by (induction es arbitrary: r) (auto intro: relay_step_ok)

lemma refs_same:
  "refs_ok r \<Longrightarrow> sessions r' = sessions r \<Longrightarrow> length (objs r') = length (objs r) \<Longrightarrow> refs_ok r'"
  by (simp add: refs_ok_def)

lemma refs_new:
  "refs_ok r \<Longrightarrow> sessions r' = AList.update sid (length (objs r)) (sessions r) \<Longrightarrow>
   objs r' = objs r @ [s] \<Longrightarrow> refs_ok r'"
  by (auto simp: refs_ok_def update_conv' less_Suc_eq)

lemma refs_delete:
  "refs_ok r \<Longrightarrow> sessions r' = AList.delete sid (sessions r) \<Longrightarrow>
   length (objs r') = length (objs r) \<Longrightarrow> refs_ok r'"
  by (auto simp: refs_ok_def delete_conv')

lemma with_session_refs: "refs_ok r \<Longrightarrow> refs_ok (fst (with_session sk h r))"
  by (auto simp: with_session_def split_def Let_def split: option.splits intro: refs_same)

lemma on_connection_refs:
  assumes "refs_ok r"
  shows "refs_ok (fst (on_connection H sk q now r))"
proof -
  have "sessions (fst (on_connection H sk q now r)) = sessions r \<and>
        length (objs (fst (on_connection H sk q now r))) = length (objs r) \<or>
        (\<exists>sid s. sessions (fst (on_connection H sk q now r)) =
                    AList.update sid (length (objs r)) (sessions r) \<and>
                  length (objs (fst (on_connection H sk q now r))) = Suc (length (objs r)))"
    by (auto simp: on_connection_def Let_def split_def split: option.splits)
  then show ?thesis
    using assms by (auto simp: refs_ok_def update_conv' less_Suc_eq split: if_splits)
qed

lemma on_socket_disconnect_refs: "refs_ok r \<Longrightarrow> refs_ok (fst (on_socket_disconnect sk now r))"
proof -
  assume r: "refs_ok r"
  have "refs_ok (fst (with_session sk on_disconnect r))" using r by (rule with_session_refs)
  then show ?thesis
    using r by (auto simp: on_socket_disconnect_def split_def Let_def split: option.splits
        intro: refs_same)
qed

lemma on_reap_timer_refs: "refs_ok r \<Longrightarrow> refs_ok (fst (on_reap_timer sid due now r))"
  by (auto simp: on_reap_timer_def reap_def refs_ok_def delete_conv' split: option.splits)

lemma on_cli_response_refs: "refs_ok r \<Longrightarrow> refs_ok (fst (on_cli_response sk response r))"
  by (auto simp: on_cli_response_def Let_def refs_ok_def split: option.splits)

lemma unbind_daemon_refs: "refs_ok r \<Longrightarrow> refs_ok (fst (unbind_daemon sk sid r))"
  by (auto simp: unbind_daemon_def refs_ok_def split: option.splits)

lemma unbind_all_refs: "refs_ok r \<Longrightarrow> refs_ok (fst (unbind_all sk sids r))"
proof (induction sids arbitrary: r)
  case Nil
  then show ?case by simp
next
  case (Cons sid sids)
  have "refs_ok (fst (unbind_daemon sk sid r))" using Cons.prems by (rule unbind_daemon_refs)
  then have "refs_ok (fst (unbind_all sk sids (fst (unbind_daemon sk sid r))))" by (rule Cons.IH)
  then show ?case by (simp add: split_def Let_def)
qed

lemma on_daemon_disconnect_refs:
  assumes "refs_ok r"
  shows "refs_ok (fst (on_daemon_disconnect sk r))"
proof (cases "map_of (cliDaemons r) sk")
  case None
  then show ?thesis using assms by (simp add: on_daemon_disconnect_def)
next
  case (Some daemon)
  have "refs_ok (fst (unbind_all sk (activeSessions daemon) r))"
    using assms by (rule unbind_all_refs)
  then show ?thesis
    using Some by (simp add: on_daemon_disconnect_def split_def Let_def refs_ok_def)
qed

lemma on_session_detached_refs: "refs_ok r \<Longrightarrow> refs_ok (fst (on_session_detached sk sid r))"
proof -
  assume r: "refs_ok r"
  have "refs_ok (r\<lparr>cliDaemons := ds\<rparr>)" for ds using r by (simp add: refs_ok_def)
  then show ?thesis
    using r by (auto simp: on_session_detached_def split: option.splits intro: unbind_daemon_refs)
qed

lemma on_session_attached_refs:
  assumes "refs_ok r"
  shows "refs_ok (fst (on_session_attached sk sid pk enc now r))"
proof -
  have "sessions (fst (on_session_attached sk sid pk enc now r)) = sessions r \<and>
        length (objs (fst (on_session_attached sk sid pk enc now r))) = length (objs r) \<or>
        sessions (fst (on_session_attached sk sid pk enc now r)) =
          AList.update sid (length (objs r)) (sessions r) \<and>
        length (objs (fst (on_session_attached sk sid pk enc now r))) = Suc (length (objs r))"
    by (auto simp: on_session_attached_def Let_def split: option.splits)
  then show ?thesis
    using assms by (auto simp: refs_ok_def update_conv' less_Suc_eq split: if_splits)
qed

lemma on_post_daemon_command_refs:
  "refs_ok r \<Longrightarrow> refs_ok (fst (on_post_daemon_command req cmd ps cid now r))"
  by (auto simp: on_post_daemon_command_def refs_ok_def split: list.splits)

lemma on_command_timeout_refs: "refs_ok r \<Longrightarrow> refs_ok (fst (on_command_timeout req now r))"
  by (auto simp: on_command_timeout_def refs_ok_def split: list.splits)

lemma relay_step_refs:
  assumes "refs_ok r"
  shows "refs_ok (fst (relay_step H e r))"
  using assms
  by (cases e)
     (simp_all add: on_connection_refs with_session_refs on_daemon_encrypted_output_def
        on_daemon_disconnect_refs on_socket_disconnect_refs on_cli_command_def
        on_cli_response_refs on_session_attached_refs on_session_detached_refs
        on_post_daemon_command_refs on_command_timeout_refs on_reap_timer_refs)

lemma relay_run_refs: "refs_ok r \<Longrightarrow> refs_ok (relay_run H es r)"
  by (induction es arbitrary: r) (auto intro: relay_step_refs)

text \<open>
  Claim C6. After any sequence of relay events from the empty relay, every \<open>Session\<close>
  object has at most 100 entries in \<open>outputHistory\<close> and at most 100 in
  \<open>encryptedHistory\<close>; in particular every entry of the session map refers to such an
  object. The \<open>output\<close> handler of a \<open>cli\<close> connection appends the event to
  \<open>outputHistory\<close> and drops the oldest entry when the length then exceeds 100, and the
  \<open>output-history\<close> handler does the same for \<open>encryptedHistory\<close>; from other connections
  both leave the histories alone.
\<close>

theorem histories_never_exceed_100:
  "histories_bounded (relay_run H es empty_relay) \<and>
   (\<forall>sid a. map_of (sessions (relay_run H es empty_relay)) sid = Some a \<longrightarrow>
      a < length (objs (relay_run H es empty_relay)) \<and>
      length (outputHistory (objs (relay_run H es empty_relay) ! a)) \<le> 100 \<and>
      length (encryptedHistory (objs (relay_run H es empty_relay) ! a)) \<le> 100) \<and>
   outputHistory (fst (on_output c ev s)) =
     (if is_cli c
      then (if length (outputHistory s) + 1 > 100 then tl (outputHistory s @ [ev])
            else outputHistory s @ [ev])
      else outputHistory s) \<and>
   encryptedHistory (fst (on_output_history c enc sq ts s)) =
     (if is_cli c
      then (if length (encryptedHistory s) + 1 > 100
            then tl (encryptedHistory s @
                       [\<lparr>viewerId = [], envelope = enc, eo_seq = sq, eo_timestamp = ts\<rparr>])
            else encryptedHistory s @
                   [\<lparr>viewerId = [], envelope = enc, eo_seq = sq, eo_timestamp = ts\<rparr>])
      else encryptedHistory s)"
proof -
  let ?R = "relay_run H es empty_relay"
  have "histories_bounded empty_relay"
    by (simp add: histories_bounded_def empty_relay_def)
  then have all: "histories_bounded ?R"
    by (rule relay_run_ok)
  have "refs_ok empty_relay"
    by (simp add: refs_ok_def empty_relay_def)
  then have refs: "refs_ok ?R"
    by (rule relay_run_refs)
  have mapped: "\<forall>sid a. map_of (sessions ?R) sid = Some a \<longrightarrow>
      a < length (objs ?R) \<and> length (outputHistory (objs ?R ! a)) \<le> 100 \<and>
      length (encryptedHistory (objs ?R ! a)) \<le> 100"
    using refs bounded_nth[OF all] by (auto simp: refs_ok_def history_ok_def)
  show ?thesis
    using all mapped by (simp add: on_output_def on_output_history_def push_capped_def Let_def)
qed

theorem histories_never_exceed_100_witness:
  "map_of (sessions (relay_run id busy_producer empty_relay)) ''demo'' = Some 0 \<and>
   length (outputHistory (objs (relay_run id busy_producer empty_relay) ! 0)) = 100 \<and>
   histories_bounded (relay_run id busy_producer empty_relay)"
proof -
  have "map_of (sessions (relay_run id busy_producer empty_relay)) ''demo'' = Some 0 \<and>
   length (outputHistory (objs (relay_run id busy_producer empty_relay) ! 0)) = 100"
    unfolding busy_producer_def by code_simp
  then show ?thesis
    using histories_never_exceed_100[of id busy_producer] by simp
qed

section \<open>Daemon commands over HTTP\<close>

lemma no_timer_of_fresh_request:
  "req \<notin> fst ` set ts \<Longrightarrow> filter (\<lambda>t. fst t = req) ts = []"
  by (induction ts) auto

lemma keyed_same: "daemons_keyed r \<Longrightarrow> cliDaemons r' = cliDaemons r \<Longrightarrow> daemons_keyed r'"
  by (simp add: daemons_keyed_def)

lemma keyed_update:
  "daemons_keyed r \<Longrightarrow> d_socketId d = sk \<Longrightarrow>
   cliDaemons r' = AList.update sk d (cliDaemons r) \<Longrightarrow> daemons_keyed r'"
  by (auto simp: daemons_keyed_def update_conv' split: if_splits)

lemma keyed_delete:
  "daemons_keyed r \<Longrightarrow> cliDaemons r' = AList.delete sk (cliDaemons r) \<Longrightarrow> daemons_keyed r'"
  by (auto simp: daemons_keyed_def delete_conv' split: if_splits)

lemma with_session_daemons: "cliDaemons (fst (with_session sk h r)) = cliDaemons r"
  by (simp add: with_session_def split_def Let_def split: option.splits)

lemma unbind_daemon_daemons: "cliDaemons (fst (unbind_daemon sk sid r)) = cliDaemons r"
  by (simp add: unbind_daemon_def split: option.splits)
lemma unbind_all_daemons: "cliDaemons (fst (unbind_all sk sids r)) = cliDaemons r"
  by (induction sids arbitrary: r) (simp_all add: split_def Let_def unbind_daemon_daemons)

lemma on_connection_keyed:
  assumes "daemons_keyed r"
  shows "daemons_keyed (fst (on_connection H sk q now r))"
proof -
  have "cliDaemons (fst (on_connection H sk q now r)) = cliDaemons r \<or>
        cliDaemons (fst (on_connection H sk q now r)) =
          AList.update sk
            \<lparr>d_socketId = sk, d_userId = derive_user H (q_userSecret q),
             activeSessions = [], connectedAt = now\<rparr> (cliDaemons r)"
    by (auto simp: on_connection_def Let_def split_def split: option.splits)
  then show ?thesis
  proof
    assume "cliDaemons (fst (on_connection H sk q now r)) = cliDaemons r"
    with assms show ?thesis by (rule keyed_same)
  next
    assume "cliDaemons (fst (on_connection H sk q now r)) =
          AList.update sk
            \<lparr>d_socketId = sk, d_userId = derive_user H (q_userSecret q),
             activeSessions = [], connectedAt = now\<rparr> (cliDaemons r)"
    then show ?thesis by (rule keyed_update[OF assms, rotated]) simp
  qed
qed

lemma on_session_attached_keyed:
  assumes "daemons_keyed r"
  shows "daemons_keyed (fst (on_session_attached sk sid pk enc now r))"
proof (cases "map_of (cliDaemons r) sk")
  case None
  then show ?thesis using assms by (simp add: on_session_attached_def)
next
  case (Some daemon)
  then have k: "d_socketId (daemon\<lparr>activeSessions := set_add sid (activeSessions daemon)\<rparr>) = sk"
    using assms by (simp add: daemons_keyed_def)
  have "cliDaemons (fst (on_session_attached sk sid pk enc now r)) =
     AList.update sk (daemon\<lparr>activeSessions := set_add sid (activeSessions daemon)\<rparr>)
       (cliDaemons r)"
    using Some by (simp add: on_session_attached_def Let_def split: option.splits)
  then show ?thesis using assms k by (rule keyed_update[rotated 2])
qed

lemma on_session_detached_keyed:
  assumes "daemons_keyed r"
  shows "daemons_keyed (fst (on_session_detached sk sid r))"
proof (cases "map_of (cliDaemons r) sk")
  case None
  then show ?thesis using assms by (simp add: on_session_detached_def)
next
  case (Some daemon)
  then have k: "d_socketId (daemon\<lparr>activeSessions := removeAll sid (activeSessions daemon)\<rparr>) = sk"
    using assms by (simp add: daemons_keyed_def)
  have "cliDaemons (fst (on_session_detached sk sid r)) =
     AList.update sk (daemon\<lparr>activeSessions := removeAll sid (activeSessions daemon)\<rparr>)
       (cliDaemons r)"
    using Some by (simp add: on_session_detached_def unbind_daemon_daemons)
  then show ?thesis using assms k by (rule keyed_update[rotated 2])
qed

lemma on_daemon_disconnect_keyed:
  assumes "daemons_keyed r"
  shows "daemons_keyed (fst (on_daemon_disconnect sk r))"
proof (cases "map_of (cliDaemons r) sk")
  case None
  then show ?thesis using assms by (simp add: on_daemon_disconnect_def)
next
  case (Some daemon)
  have "cliDaemons (fst (on_daemon_disconnect sk r)) = AList.delete sk (cliDaemons r)"
    using Some by (simp add: on_daemon_disconnect_def split_def Let_def unbind_all_daemons)
  then show ?thesis using assms by (rule keyed_delete[rotated])
qed

lemma on_socket_disconnect_daemons:
  "cliDaemons (fst (on_socket_disconnect sk now r)) = cliDaemons r"
  by (simp add: on_socket_disconnect_def split_def Let_def with_session_daemons
      split: option.splits)

lemma on_reap_timer_daemons: "cliDaemons (fst (on_reap_timer sid due now r)) = cliDaemons r"
  by (simp add: on_reap_timer_def reap_def split: option.splits)

lemma on_cli_response_daemons: "cliDaemons (fst (on_cli_response sk response r)) = cliDaemons r"
  by (simp add: on_cli_response_def Let_def split: option.splits)

lemma on_post_daemon_command_daemons:
  "cliDaemons (fst (on_post_daemon_command req cmd ps cid now r)) = cliDaemons r"
  by (simp add: on_post_daemon_command_def split: list.splits)

lemma on_command_timeout_daemons:
  "cliDaemons (fst (on_command_timeout req now r)) = cliDaemons r"
  by (simp add: on_command_timeout_def split: list.splits)

lemma relay_step_keyed:
  assumes "daemons_keyed r"
  shows "daemons_keyed (fst (relay_step H e r))"
  using assms
  by (cases e)
     (auto simp: on_connection_keyed on_session_attached_keyed on_session_detached_keyed
        on_daemon_disconnect_keyed on_daemon_encrypted_output_def on_cli_command_def
        with_session_daemons on_socket_disconnect_daemons on_reap_timer_daemons
        on_cli_response_daemons on_post_daemon_command_daemons on_command_timeout_daemons
        intro: keyed_same)

lemma relay_run_keyed: "daemons_keyed r \<Longrightarrow> daemons_keyed (relay_run H es r)"
  by (induction es arbitrary: r) (auto intro: relay_step_keyed)

lemma first_daemon_connected:
  assumes "cliDaemons (relay_run H es empty_relay) = (k, daemon) # rest"
  shows "socket_connected (relay_run H es empty_relay) (d_socketId daemon)"
proof -
  have "daemons_keyed empty_relay" by (simp add: daemons_keyed_def empty_relay_def)
  then have keyed: "daemons_keyed (relay_run H es empty_relay)" by (rule relay_run_keyed)
  have "map_of (cliDaemons (relay_run H es empty_relay)) k = Some daemon"
    using assms by simp
  then have "d_socketId daemon = k" using keyed by (simp add: daemons_keyed_def)
  then show ?thesis using assms by (simp add: socket_connected_def)
qed

text \<open>
  Claim C8, as amended. Take a POST whose body carries a non-empty \<open>command\<close>.
  \<^item> With no daemon connected the answer is \<open>{error: "No CLI daemon connected"}\<close> and
    nothing else happens.
  \<^item> Otherwise, the first daemon's socket being connected, the relay sends
    \<open>cli-command{commandId, command, params}\<close> to that daemon, records the pending command
    and arms a timeout due 10 s later. A \<open>cli-response\<close> with this command id that arrives
    next answers the request with \<open>{success: true, data}\<close> when it reports success and with
    \<open>{error}\<close> carrying the daemon's error message (\<open>"Command failed"\<close> when it gives none)
    when it reports failure, and disarms the timeout. If instead the timeout fires (which
    it does no earlier than 10 s after the request) the answer is
    \<open>{error: "Command timeout"}\<close>, and a reply arriving after that answers no request.
  \<^item> In every state the relay reaches from the empty one, the first daemon's socket is
    connected.
  \<^item> A body whose \<open>command\<close> is missing or empty is answered
    \<open>{error: "command is required"}\<close> in every state, with or without a daemon, and
    changes nothing.
\<close>

theorem daemon_command_outcomes:
  assumes "truthy cmd"
  shows
    "(cliDaemons r = [] \<longrightarrow>
        on_post_daemon_command req cmd ps cid now r =
          (r, [(ToHttp req, HttpError ''No CLI daemon connected'')])) \<and>
     (\<forall>k daemon rest.
        cliDaemons r = (k, daemon) # rest \<and> socket_connected r (d_socketId daemon) \<and>
        req \<notin> fst ` set (commandTimers r) \<longrightarrow>
        (let r1 = r\<lparr>commandTimers := commandTimers r @ [(req, cid, now + 10000)],
                     pendingCommands := AList.update cid req (pendingCommands r)\<rparr>
         in on_post_daemon_command req cmd ps cid now r =
              (r1, [(ToSocket (d_socketId daemon),
                     CliCommandP \<lparr>commandId = cid, command = the cmd, params = ps\<rparr>)]) \<and>
            (r_commandId resp = cid \<longrightarrow>
               snd (on_cli_response sk resp r1) =
                 [(ToHttp req,
                   if success resp then HttpSuccess (r_data resp)
                   else HttpError (case r_error resp of
                                     None \<Rightarrow> ''Command failed'' | Some e \<Rightarrow> e)),
                  (ToAll, CliResponseP resp)] \<and>
               snd (on_command_timeout req t (fst (on_cli_response sk resp r1))) = []) \<and>
            snd (on_command_timeout req t r1) =
              (if now + 10000 \<le> t then [(ToHttp req, HttpError ''Command timeout'')] else []) \<and>
            (r_commandId resp = cid \<and> now + 10000 \<le> t \<longrightarrow>
               snd (on_cli_response sk resp (fst (on_command_timeout req t r1))) =
                 [(ToAll, CliResponseP resp)]))) \<and>
     (\<forall>k daemon rest.
        cliDaemons (relay_run H es empty_relay) = (k, daemon) # rest \<longrightarrow>
        socket_connected (relay_run H es empty_relay) (d_socketId daemon)) \<and>
     (\<not> truthy absent \<longrightarrow>
        on_post_daemon_command req absent ps cid now r =
          (r, [(ToHttp req, HttpError ''command is required'')]))"
proof -
  have none: "cliDaemons r = [] \<longrightarrow>
        on_post_daemon_command req cmd ps cid now r =
          (r, [(ToHttp req, HttpError ''No CLI daemon connected'')])"
    using assms by (simp add: on_post_daemon_command_def)
  have some: "(let r1 = r\<lparr>commandTimers := commandTimers r @ [(req, cid, now + 10000)],
                     pendingCommands := AList.update cid req (pendingCommands r)\<rparr>
         in on_post_daemon_command req cmd ps cid now r =
              (r1, [(ToSocket (d_socketId daemon),
                     CliCommandP \<lparr>commandId = cid, command = the cmd, params = ps\<rparr>)]) \<and>
            (r_commandId resp = cid \<longrightarrow>
               snd (on_cli_response sk resp r1) =
                 [(ToHttp req,
                   if success resp then HttpSuccess (r_data resp)
                   else HttpError (case r_error resp of
                                     None \<Rightarrow> ''Command failed'' | Some e \<Rightarrow> e)),
                  (ToAll, CliResponseP resp)] \<and>
               snd (on_command_timeout req t (fst (on_cli_response sk resp r1))) = []) \<and>
            snd (on_command_timeout req t r1) =
              (if now + 10000 \<le> t then [(ToHttp req, HttpError ''Command timeout'')] else []) \<and>
            (r_commandId resp = cid \<and> now + 10000 \<le> t \<longrightarrow>
               snd (on_cli_response sk resp (fst (on_command_timeout req t r1))) =
                 [(ToAll, CliResponseP resp)]))"
    if d: "cliDaemons r = (k, daemon) # rest" and c: "socket_connected r (d_socketId daemon)"
      and f: "req \<notin> fst ` set (commandTimers r)" for k daemon rest
  proof -
    define r1 where "r1 = r\<lparr>commandTimers := commandTimers r @ [(req, cid, now + 10000)],
                     pendingCommands := AList.update cid req (pendingCommands r)\<rparr>"
    have post: "on_post_daemon_command req cmd ps cid now r =
              (r1, [(ToSocket (d_socketId daemon),
                     CliCommandP \<lparr>commandId = cid, command = the cmd, params = ps\<rparr>)])"
      using assms d c by (simp add: on_post_daemon_command_def r1_def)
    have pend: "map_of (pendingCommands r1) cid = Some req"
      by (simp add: r1_def update_conv')
    have tim: "filter (\<lambda>t. fst t = req) (commandTimers r1) = [(req, cid, now + 10000)]"
      using f by (simp add: r1_def no_timer_of_fresh_request)
    have reply: "snd (on_cli_response sk resp r1) =
                 [(ToHttp req,
                   if success resp then HttpSuccess (r_data resp)
                   else HttpError (case r_error resp of
                                     None \<Rightarrow> ''Command failed'' | Some e \<Rightarrow> e)),
                  (ToAll, CliResponseP resp)]"
      if "r_commandId resp = cid"
      using that pend by (simp add: on_cli_response_def)
    have disarmed: "snd (on_command_timeout req t (fst (on_cli_response sk resp r1))) = []"
      if "r_commandId resp = cid"
      using that pend by (simp add: on_cli_response_def on_command_timeout_def)
    have timeout: "snd (on_command_timeout req t r1) =
              (if now + 10000 \<le> t then [(ToHttp req, HttpError ''Command timeout'')] else [])"
      using tim by (simp add: on_command_timeout_def)
    have late: "snd (on_cli_response sk resp (fst (on_command_timeout req t r1))) =
                 [(ToAll, CliResponseP resp)]"
      if "r_commandId resp = cid" and "now + 10000 \<le> t"
      using that tim by (simp add: on_cli_response_def on_command_timeout_def delete_conv')
    show ?thesis
      unfolding Let_def r1_def[symmetric] using post reply disarmed timeout late by blast
  qed
  have reached: "\<forall>k daemon rest.
        cliDaemons (relay_run H es empty_relay) = (k, daemon) # rest \<longrightarrow>
        socket_connected (relay_run H es empty_relay) (d_socketId daemon)"
    using first_daemon_connected by blast
  have required: "\<not> truthy absent \<longrightarrow>
        on_post_daemon_command req absent ps cid now r =
          (r, [(ToHttp req, HttpError ''command is required'')])"
    by (simp add: on_post_daemon_command_def)
  show ?thesis using none some reached required by blast
qed

lemma one_daemon_value:
  "one_daemon =
     empty_relay\<lparr>cliDaemons :=
       [(''D'', \<lparr>d_socketId = ''D'', d_userId = None, activeSessions = [], connectedAt = 0\<rparr>)]\<rparr>"
  by (simp add: one_daemon_def relay_eval)

theorem daemon_command_outcomes_witness:
  "on_post_daemon_command 7 (Some ''list-sessions'') None ''cmd_1'' 0 empty_relay =
     (empty_relay, [(ToHttp 7, HttpError ''No CLI daemon connected'')]) \<and>
   snd (on_post_daemon_command 7 (Some ''list-sessions'') None ''cmd_1'' 0 one_daemon) =
     [(ToSocket ''D'',
       CliCommandP \<lparr>commandId = ''cmd_1'', command = ''list-sessions'', params = None\<rparr>)] \<and>
   snd (on_cli_response ''D'' list_sessions_ok
          (fst (on_post_daemon_command 7 (Some ''list-sessions'') None ''cmd_1'' 0 one_daemon))) =
     [(ToHttp 7, HttpSuccess (Some (JArr []))), (ToAll, CliResponseP list_sessions_ok)] \<and>
   snd (on_cli_response ''D'' list_sessions_failed
          (fst (on_post_daemon_command 7 (Some ''list-sessions'') None ''cmd_1'' 0 one_daemon))) =
     [(ToHttp 7, HttpError ''tmux missing''), (ToAll, CliResponseP list_sessions_failed)] \<and>
   snd (on_command_timeout 7 10000
          (fst (on_post_daemon_command 7 (Some ''list-sessions'') None ''cmd_1'' 0 one_daemon))) =
     [(ToHttp 7, HttpError ''Command timeout'')] \<and>
   on_post_daemon_command 7 (Some []) None ''cmd_1'' 0 one_daemon =
     (one_daemon, [(ToHttp 7, HttpError ''command is required'')])"
proof -
  have t: "truthy (Some ''list-sessions'')" by (simp add: truthy_def)
  have a: "\<not> truthy (Some [])" by (simp add: truthy_def)
  have e: "cliDaemons empty_relay = []" by (simp add: empty_relay_def)
  have d: "cliDaemons one_daemon =
     (''D'', \<lparr>d_socketId = ''D'', d_userId = None, activeSessions = [], connectedAt = 0\<rparr>) # []"
    by (simp add: one_daemon_value)
  have c: "socket_connected one_daemon ''D''"
    by (simp add: one_daemon_value socket_connected_def)
  have f: "7 \<notin> fst ` set (commandTimers one_daemon)"
    by (simp add: one_daemon_value empty_relay_def)
  show ?thesis
    using e d c f a
      daemon_command_outcomes[OF t, of empty_relay 7 None "''cmd_1''" 0]
      daemon_command_outcomes[OF t, of one_daemon 7 None "''cmd_1''" 0 list_sessions_ok "''D''" 10000
        _ _ "Some []"]
      daemon_command_outcomes[OF t, of one_daemon 7 None "''cmd_1''" 0 list_sessions_failed "''D''" 10000]
    by (simp add: Let_def list_sessions_ok_def list_sessions_failed_def)
qed

text \<open>
  Claim C8 as stated fails for a request with an empty \<open>command\<close>: with no daemon connected
  the answer is \<open>{error: "command is required"}\<close>, not \<open>{error: "No CLI daemon connected"}\<close>.
\<close>

theorem empty_command_rejected_first:
  "cliDaemons empty_relay = [] \<and>
   on_post_daemon_command 7 (Some []) None ''cmd_1'' 0 empty_relay =
     (empty_relay, [(ToHttp 7, HttpError ''command is required'')])"
  by (simp add: empty_relay_def on_post_daemon_command_def truthy_def)

section \<open>Reaping of empty sessions\<close>

text \<open>
  What the 60 s timer does when it fires: the session id leaves the session map exactly
  when it is mapped to an object with no bound producer socket and no viewers. The
  object's \<open>daemonSocketId\<close> is not looked at.
\<close>

lemma reap_deletes_iff:
  "map_of (sessions (reap sid r)) sid =
     (case map_of (sessions r) sid of
        None \<Rightarrow> None
      | Some a \<Rightarrow>
          if a < length (objs r) \<and> \<not> truthy (cliSocketId (objs r ! a)) \<and> viewers (objs r ! a) = []
          then None else Some a)"
  by (simp add: reap_def delete_conv' split: option.splits)

lemma disconnect_arms_reap_timer:
  "map_of (conns r) sk = Some c \<Longrightarrow>
   reapTimers (fst (on_socket_disconnect sk now r)) = reapTimers r @ [(sessionId c, now + 60000)]"
  by (simp add: on_socket_disconnect_def with_session_def split_def Let_def)

text \<open>
  Only the disconnect of an ordinary socket arms the timer: when a daemon disconnects or
  detaches a session, no timer is armed, so a session that a daemon's departure leaves
  without producer and viewers stays in the map until some later viewer or producer
  disconnect arms one.
\<close>

lemma unbind_daemon_timers: "reapTimers (fst (unbind_daemon sk sid r)) = reapTimers r"
  by (simp add: unbind_daemon_def split: option.splits)

lemma unbind_all_timers: "reapTimers (fst (unbind_all sk sids r)) = reapTimers r"
  by (induction sids arbitrary: r) (simp_all add: split_def Let_def unbind_daemon_timers)

lemma daemon_departure_arms_no_timer:
  "reapTimers (fst (on_daemon_disconnect sk r)) = reapTimers r \<and>
   reapTimers (fst (on_session_detached sk sid r)) = reapTimers r"
  by (simp add: on_daemon_disconnect_def on_session_detached_def split_def Let_def
      unbind_all_timers unbind_daemon_timers split: option.splits)

text \<open>
  Claim C7 on the code. Daemon \<open>D\<close> attaches session \<open>demo\<close>; viewer \<open>V\<close> joins and
  disconnects at time 3, which arms a timer due at 60 003. Before the timer fires the
  session is in the map and bound to \<open>D\<close>. When the timer fires the session is deleted from
  the map, although \<open>D\<close> is still connected and still lists \<open>demo\<close> among its active
  sessions.
\<close>

theorem reaper_deletes_daemon_session:
  "map_of (sessions (relay_run id daemon_session_visit empty_relay)) ''demo'' = Some 0 \<and>
   daemonSocketId (objs (relay_run id daemon_session_visit empty_relay) ! 0) = Some ''D'' \<and>
   reapTimers (relay_run id daemon_session_visit empty_relay) = [(''demo'', 60003)] \<and>
   map_of (sessions (relay_run id (daemon_session_visit @ [ReapTimer ''demo'' 60003 60003])
                       empty_relay)) ''demo'' = None \<and>
   map_of (cliDaemons (relay_run id (daemon_session_visit @ [ReapTimer ''demo'' 60003 60003])
                         empty_relay)) ''D'' =
     Some \<lparr>d_socketId = ''D'', d_userId = None, activeSessions = [''demo''], connectedAt = 0\<rparr>"
  by (simp add: daemon_session_visit_def relay_eval)

end
